theory Spec2Isabelle
  imports Main "HOL-Library.Sublist"
begin

section \<open>The API types generator of tuyau (packages/core/src/codegen/api_types_generator.ts)\<close>

text \<open>
  A shallow embedding of the class \<open>ApiTypesGenerator\<close>. JavaScript strings are
  \<^typ>\<open>string\<close> (ASCII), arrays are lists, plain objects are association lists in
  insertion order, \<open>undefined\<close> is \<^const>\<open>None\<close>. The logger is an output-only effect:
  every function that logs returns the entries it has written next to its result. A
  \<open>TypeError\<close> raised by the strict-mode module is a value of the sum type
  \<open>halt + 'a\<close>. Two pieces of state outlive a run of \<open>generate\<close> and are threaded
  through it: the \<open>lastIndex\<close> of the \<open>RegExp\<close> objects of the configuration, and the
  source files of the ts-morph project.
\<close>

subsection \<open>String and array primitives\<close>

definition newline :: char where
  "newline = CHR 0x0A"

definition apostrophe :: string where
  "apostrophe = [CHR 0x27]"

definition dquote :: string where
  "dquote = [CHR 0x22]"

definition backslash :: string where
  "backslash = [CHR 0x5C]"

text \<open>\<open>String.prototype.toLowerCase\<close> and \<open>toUpperCase\<close> on ASCII letters.\<close>

definition lower_char :: "char \<Rightarrow> char" where
  "lower_char c =
     (case map_of (zip ''ABCDEFGHIJKLMNOPQRSTUVWXYZ'' ''abcdefghijklmnopqrstuvwxyz'') c of
        Some d \<Rightarrow> d
      | None \<Rightarrow> c)"

definition upper_char :: "char \<Rightarrow> char" where
  "upper_char c =
     (case map_of (zip ''abcdefghijklmnopqrstuvwxyz'' ''ABCDEFGHIJKLMNOPQRSTUVWXYZ'') c of
        Some d \<Rightarrow> d
      | None \<Rightarrow> c)"

definition toLowerCase :: "string \<Rightarrow> string" where
  "toLowerCase s = map lower_char s"

text \<open>
  \<open>s.split(sep)\<close> for a one-character separator: the pieces between separators, the
  empty ones included (\<open>''/a''.split('/')\<close> is \<open>['', 'a']\<close>, \<open>''.split('/')\<close> is \<open>['']\<close>).
  \<open>split_where\<close> cuts at every character satisfying a test.
\<close>

fun split_where :: "(char \<Rightarrow> bool) \<Rightarrow> string \<Rightarrow> string list" where
  "split_where p [] = [[]]"
| "split_where p (c # cs) =
     (if p c then [] # split_where p cs
      else (case split_where p cs of
              [] \<Rightarrow> [[c]]
            | w # ws \<Rightarrow> (c # w) # ws))"

definition js_split :: "char \<Rightarrow> string \<Rightarrow> string list" where
  "js_split sep s = split_where (\<lambda>c. c = sep) s"

text \<open>\<open>xs.filter(Boolean)\<close> on an array of strings drops the empty strings.\<close>

definition filter_Boolean :: "string list \<Rightarrow> string list" where
  "filter_Boolean xs = filter (\<lambda>s. s \<noteq> []) xs"

fun join :: "string \<Rightarrow> string list \<Rightarrow> string" where
  "join sep [] = []"
| "join sep [x] = x"
| "join sep (x # y # ys) = x @ sep @ join sep (y # ys)"

definition startsWith :: "string \<Rightarrow> string \<Rightarrow> bool" where
  "startsWith s t = (take (length t) s = t)"

definition endsWith :: "string \<Rightarrow> string \<Rightarrow> bool" where
  "endsWith s t = (length t \<le> length s \<and> drop (length s - length t) s = t)"

fun js_includes :: "string \<Rightarrow> string \<Rightarrow> bool" where
  "js_includes [] t = (t = [])"
| "js_includes (c # cs) t = (startsWith (c # cs) t \<or> js_includes cs t)"

text \<open>\<open>s.replace('#', '')\<close> with a string pattern removes the first \<open>#\<close> only.\<close>

fun replace_hash :: "string \<Rightarrow> string" where
  "replace_hash [] = []"
| "replace_hash (c # cs) = (if c = CHR ''#'' then cs else c # replace_hash cs)"

subsection \<open>Plain objects\<close>

text \<open>
  A \<open>Record<string, any>\<close> is an association list of its own properties, with unique
  keys, in insertion order. An assignment to an existing key keeps the key's place, a
  new key goes last. The members that an object inherits are looked at where the
  definition tree is walked (\<open>child_level\<close> below); the types by pattern are looked up
  by type name, among the own properties.
\<close>

fun set_prop :: "(string \<times> 'v) list \<Rightarrow> string \<Rightarrow> 'v \<Rightarrow> (string \<times> 'v) list" where
  "set_prop [] k v = [(k, v)]"
| "set_prop ((k', v') # kvs) k v =
     (if k' = k then (k, v) # kvs else (k', v') # set_prop kvs k v)"

definition get_prop :: "(string \<times> 'v) list \<Rightarrow> string \<Rightarrow> 'v option" where
  "get_prop kvs k = map_of kvs k"

text \<open>
  \<open>Object.entries\<close> lists the keys that are array indices (canonical decimal numerals
  below \<open>2^32 - 1\<close>) first, in ascending numeric order, then the other keys in
  insertion order.
\<close>

definition digit_value :: "char \<Rightarrow> nat option" where
  "digit_value c = map_of (zip ''0123456789'' [0 ..< 10]) c"

fun decimal_value :: "nat \<Rightarrow> string \<Rightarrow> nat option" where
  "decimal_value acc [] = Some acc"
| "decimal_value acc (c # cs) =
     (case digit_value c of
        None \<Rightarrow> None
      | Some d \<Rightarrow> decimal_value (10 * acc + d) cs)"

definition array_index :: "string \<Rightarrow> nat option" where
  "array_index k =
     (if k = [] \<or> (hd k = CHR ''0'' \<and> tl k \<noteq> []) then None
      else (case decimal_value 0 k of
              None \<Rightarrow> None
            | Some n \<Rightarrow> if n < 4294967295 then Some n else None))"

definition object_entries :: "(string \<times> 'v) list \<Rightarrow> (string \<times> 'v) list" where
  "object_entries kvs =
     sort_key (\<lambda>kv. the (array_index (fst kv))) (filter (\<lambda>kv. array_index (fst kv) \<noteq> None) kvs)
     @ filter (\<lambda>kv. array_index (fst kv) = None) kvs"

subsection \<open>Routes and the filter configuration\<close>

text \<open>
  A \<open>RouteJSON\<close>, as far as the generator reads it. The handler is either a function
  value or a reference; a reference is kept in the parsed form that
  \<open>parseBindingReference\<close> (of @adonisjs/core) returns for it.
\<close>

datatype route_handler =
    FunctionHandler
  | Reference (moduleNameOrPath: string) (methodName: string)

record route =
  pattern :: string
  methods :: "string list"
  handler :: route_handler
  name :: "string option"

text \<open>
  A \<open>RegExp\<close> object is mutable: it carries \<open>lastIndex\<close>, which \<open>test\<close> reads and writes
  when the expression has the \<open>g\<close> or the \<open>y\<close> flag. \<open>exec_at r s i\<close> stands for the
  matcher of the expression: the end index of the match that a search of \<open>s\<close> started
  at index \<open>i\<close> finds (the match at \<open>i\<close> itself for a sticky expression, the first match
  at or after \<open>i\<close> otherwise), or \<open>None\<close> when there is none.
\<close>

record regexp =
  global :: bool
  sticky :: bool
  exec_at :: "string \<Rightarrow> nat \<Rightarrow> nat option"
  lastIndex :: nat

text \<open>
  \<open>RegExp.prototype.test\<close> (\<open>RegExpBuiltinExec\<close> of ECMA-262): the result, and the
  object afterwards. Without the flags \<open>g\<close> and \<open>y\<close> the search starts at index 0 and
  \<open>lastIndex\<close> is left alone. With one of them the search starts at \<open>lastIndex\<close>; a
  failure (also when \<open>lastIndex\<close> is beyond the end of the subject) sets \<open>lastIndex\<close> to 0,
  a success sets it to the end index of the match.
\<close>

definition regexp_test :: "regexp \<Rightarrow> string \<Rightarrow> bool \<times> regexp" where
  "regexp_test r s =
     (if global r \<or> sticky r then
        (if length s < lastIndex r then (False, r\<lparr> lastIndex := 0 \<rparr>)
         else (case exec_at r s (lastIndex r) of
                 None \<Rightarrow> (False, r\<lparr> lastIndex := 0 \<rparr>)
               | Some e \<Rightarrow> (True, r\<lparr> lastIndex := e \<rparr>)))
      else (exec_at r s 0 \<noteq> None, r))"

text \<open>
  An entry of an \<open>only\<close> or \<open>except\<close> array is a string or a \<open>RegExp\<close> object; the
  object is held by reference, so that several entries (of one mode or of both) can
  share it. The configuration carries the table of the objects its entries refer to.
  \<open>only\<close> and \<open>except\<close> are each an array of entries, a predicate on routes, or absent.
\<close>

datatype route_matcher = Literal string | RegExp nat

datatype route_filter = Predicate "route \<Rightarrow> bool" | Patterns "route_matcher list"

record filter_config =
  only :: "route_filter option"
  except :: "route_filter option"

record codegen_config =
  definitions_filter :: "filter_config option"
  routes_filter :: "filter_config option"

type_synonym regexp_table = "nat \<Rightarrow> regexp"

record tuyau_config =
  codegen :: "codegen_config option"
  regexps :: regexp_table

datatype filter_mode = Definitions | Routes

text \<open>\<open>this.#config.codegen?.[mode]\<close>\<close>

definition mode_config :: "tuyau_config \<Rightarrow> filter_mode \<Rightarrow> filter_config option" where
  "mode_config cfg mode =
     (case codegen cfg of
        None \<Rightarrow> None
      | Some c \<Rightarrow> (case mode of Definitions \<Rightarrow> definitions_filter c | Routes \<Rightarrow> routes_filter c))"

text \<open>
  One turn of the loops over \<open>config.only\<close> and \<open>config.except\<close>:
  \<open>pattern instanceof RegExp && pattern.test(route.pattern)\<close>, then
  \<open>route.pattern === pattern\<close> (never true for a \<open>RegExp\<close>). The result is whether the
  entry hits, and the table of the objects after the test.
\<close>

fun entry_hits :: "regexp_table \<Rightarrow> route_matcher \<Rightarrow> string \<Rightarrow> bool \<times> regexp_table" where
  "entry_hits objs (RegExp ref) p =
     (case regexp_test (objs ref) p of (hit, r') \<Rightarrow> (hit, objs(ref := r')))"
| "entry_hits objs (Literal s) p = (p = s, objs)"

text \<open>The two loops return at the first entry that hits; the later entries are not tested.\<close>

fun only_loop :: "regexp_table \<Rightarrow> route_matcher list \<Rightarrow> string \<Rightarrow> bool \<times> regexp_table" where
  "only_loop objs [] p = (False, objs)"
| "only_loop objs (m # ms) p =
     (case entry_hits objs m p of
        (hit, objs') \<Rightarrow> if hit then (True, objs') else only_loop objs' ms p)"

fun except_loop :: "regexp_table \<Rightarrow> route_matcher list \<Rightarrow> string \<Rightarrow> bool \<times> regexp_table" where
  "except_loop objs [] p = (True, objs)"
| "except_loop objs (m # ms) p =
     (case entry_hits objs m p of
        (hit, objs') \<Rightarrow> if hit then (False, objs') else except_loop objs' ms p)"

text \<open>
  The callback of \<open>routes.filter\<close>, in the order of its tests: a function under \<open>only\<close>,
  a function under \<open>except\<close>, the array under \<open>only\<close>, the array under \<open>except\<close>.
\<close>

definition keep_route :: "filter_config \<Rightarrow> regexp_table \<Rightarrow> route \<Rightarrow> bool \<times> regexp_table" where
  "keep_route c objs r =
     (case only c of
        Some (Predicate f) \<Rightarrow> (f r, objs)
      | _ \<Rightarrow>
        (case except c of
           Some (Predicate g) \<Rightarrow> (\<not> g r, objs)
         | _ \<Rightarrow>
           (case only c of
              Some (Patterns ps) \<Rightarrow> only_loop objs ps (pattern r)
            | _ \<Rightarrow>
              (case except c of
                 Some (Patterns qs) \<Rightarrow> except_loop objs qs (pattern r)
               | _ \<Rightarrow> (True, objs)))))"

text \<open>\<open>routes.filter(callback)\<close>: the callback runs on the routes from left to right.\<close>

fun filter_with :: "filter_config \<Rightarrow> regexp_table \<Rightarrow> route list \<Rightarrow> route list \<times> regexp_table" where
  "filter_with c objs [] = ([], objs)"
| "filter_with c objs (r # rs) =
     (case keep_route c objs r of
        (keep, objs') \<Rightarrow>
          (case filter_with c objs' rs of
             (kept, objs'') \<Rightarrow> (if keep then r # kept else kept, objs'')))"

text \<open>\<open>#filterRoutes\<close>: the routes kept, and the configuration with its objects afterwards.\<close>

definition filterRoutes :: "tuyau_config \<Rightarrow> route list \<Rightarrow> filter_mode \<Rightarrow> route list \<times> tuyau_config" where
  "filterRoutes cfg rs mode =
     (case mode_config cfg mode of
        None \<Rightarrow> (rs, cfg)
      | Some c \<Rightarrow>
          if only c = None \<and> except c = None then (rs, cfg)
          else (case filter_with c (regexps cfg) rs of
                  (kept, objs') \<Rightarrow> (kept, cfg\<lparr> regexps := objs' \<rparr>)))"

subsection \<open>Imported helpers\<close>

text \<open>
  Four functions come from packages outside the repository: \<open>string.pascalCase\<close>
  (@adonisjs/core), \<open>relative\<close> (node:path), \<open>matchit.parse\<close> (@poppinss/matchit) and
  \<open>fileURLToPath\<close> (node:url), here applied to the pathname of a file URL. The generator
  is parametrised by them. A node of a parsed pattern carries its type (\<open>0\<close> for a static
  segment) and its value.
\<close>

record matchit_node =
  node_type :: nat
  val :: string

record helpers =
  pascalCase :: "string \<Rightarrow> string"
  relative :: "string \<Rightarrow> string \<Rightarrow> string"
  matchit_parse :: "string \<Rightarrow> matchit_node list"
  fileURLToPath :: "string \<Rightarrow> string"

subsection \<open>Type names\<close>

text \<open>\<open>#generateTypeName\<close>\<close>

definition generateTypeName :: "helpers \<Rightarrow> string \<Rightarrow> string list \<Rightarrow> string" where
  "generateTypeName h pat ms =
     (let remappedSegments =
            join '' '' (map (\<lambda>segment. if startsWith segment '':'' then ''id'' else segment)
                          (filter_Boolean (js_split CHR ''/'' pat)));
          methods' = pascalCase h (join '' '' ms)
      in pascalCase h remappedSegments @ methods')"

subsection \<open>The source project\<close>

text \<open>
  The part of a ts-morph syntax tree the generator looks at. Every node has its source
  text; a call expression has its callee and its arguments, an identifier has the file
  paths of the implementations the language service finds for it (in order), any other
  node has its children.
\<close>

datatype ast =
    CallExpression string ast "ast list"
  | Identifier string "string list"
  | OtherNode string "ast list"

fun getText :: "ast \<Rightarrow> string" where
  "getText (CallExpression t callee args) = t"
| "getText (Identifier t impls) = t"
| "getText (OtherNode t cs) = t"

text \<open>
  A method declaration: its name, its child nodes in source order (what
  \<open>forEachDescendant\<close> walks through), and whether \<open>getBody()\<close> finds a body.
\<close>

record method_decl =
  method_name :: string
  method_children :: "ast list"
  has_body :: bool

record class_decl =
  isDefaultExport :: bool
  class_methods :: "method_decl list"

record source_file =
  filePath :: string
  classes :: "class_decl list"

text \<open>\<open>#extractClassHandlerData\<close>: the method of the default-exported class, or \<open>undefined\<close>.\<close>

definition extractClassHandlerData :: "source_file \<Rightarrow> string \<Rightarrow> method_decl option" where
  "extractClassHandlerData file meth =
     (case find isDefaultExport (classes file) of
        None \<Rightarrow> None
      | Some classDef \<Rightarrow>
          (case find (\<lambda>m. method_name m = meth) (class_methods classDef) of
             None \<Rightarrow> None
           | Some m \<Rightarrow> if has_body m then Some m else None))"

datatype log_entry = Info string | Warning string

text \<open>
  The callback of \<open>forEachDescendant\<close> in \<open>#extractRequest\<close> returns the node when it is a
  call expression whose callee text includes \<open>validateUsing\<close>; the traversal is
  depth-first, parents before children, and stops at the first node returned.
\<close>

fun is_validateUsing_call :: "ast \<Rightarrow> bool" where
  "is_validateUsing_call (CallExpression t callee args) = js_includes (getText callee) ''validateUsing''"
| "is_validateUsing_call (Identifier t impls) = False"
| "is_validateUsing_call (OtherNode t cs) = False"

fun forEachDescendant :: "ast \<Rightarrow> ast option"
  and forEachDescendants :: "ast list \<Rightarrow> ast option" where
  "forEachDescendant (CallExpression t callee args) =
     (if is_validateUsing_call (CallExpression t callee args)
      then Some (CallExpression t callee args)
      else forEachDescendants (callee # args))"
| "forEachDescendant (Identifier t impls) = None"
| "forEachDescendant (OtherNode t cs) = forEachDescendants cs"
| "forEachDescendants [] = None"
| "forEachDescendants (n # ns) =
     (case forEachDescendant n of
        Some c \<Rightarrow> Some c
      | None \<Rightarrow> forEachDescendants ns)"

text \<open>
  The rest of \<open>#extractRequest\<close>, from the call node found: the first argument must be
  an identifier with an implementation. The result is the type reference or
  \<open>undefined\<close>, and the warnings logged.
\<close>

fun schema_of_call :: "helpers \<Rightarrow> string \<Rightarrow> ast \<Rightarrow> string option \<times> log_entry list" where
  "schema_of_call h destDir (CallExpression t callee (Identifier schema (importPath # others) # args)) =
     (Some (''InferInput<typeof import('' @ apostrophe @ relative h destDir importPath @ apostrophe
            @ '')['' @ apostrophe @ schema @ apostrophe @ '']>''), [])"
| "schema_of_call h destDir (CallExpression t callee (Identifier schema [] # args)) =
     (None, [Warning (''Unable to find the schema file for '' @ schema)])"
| "schema_of_call h destDir n = (None, [])"

definition extractRequest :: "helpers \<Rightarrow> string \<Rightarrow> method_decl \<Rightarrow> string option \<times> log_entry list" where
  "extractRequest h destDir m =
     (case forEachDescendants (method_children m) of
        Some validateUsingCallNode \<Rightarrow> schema_of_call h destDir validateUsingCallNode
      | None \<Rightarrow> (None, []))"

subsection \<open>The definition tree and the types by pattern\<close>

text \<open>
  A value in the definition object is a string (a type name under a verb key) or a
  nested object.
\<close>

datatype jsval = VStr string | VObj "(string \<times> jsval) list"

record type_entry =
  request :: string
  response :: string

record gen_state =
  definitionObj :: "(string \<times> jsval) list"
  typesByPattern :: "(string \<times> type_entry) list"

text \<open>
  A run stops early in two ways. \<open>TypeError\<close> is the exception that the code raises.
  \<open>LeavesTree\<close> is not an error of the code: it marks a run that walks out of the
  definition tree into a built-in object of the engine, where the model does not
  follow it.
\<close>

datatype halt = TypeError string | LeavesTree string

text \<open>
  The verb keys of a route, as \<open>generate\<close> computes them: the \<open>$\<close> is put in front of the
  lower-cased method first, and the result is compared with \<open>head\<close> afterwards.
\<close>

definition verb_keys :: "string list \<Rightarrow> string list" where
  "verb_keys ms = filter (\<lambda>m. m \<noteq> ''head'') (map (\<lambda>m. ''$'' @ toLowerCase m) ms)"

text \<open>
  What the callback of \<open>segments.forEach\<close> writes into the node of the last segment:
  the marker \<open>$url\<close>, then one key per verb.
\<close>

definition leaf_update :: "string \<Rightarrow> string list \<Rightarrow> (string \<times> jsval) list \<Rightarrow> (string \<times> jsval) list" where
  "leaf_update typeName keys node =
     foldl (\<lambda>level m. set_prop level m (VStr typeName)) (set_prop node ''$url'' (VObj [])) keys"

text \<open>
  The nodes of the definition tree are created by \<open>{}\<close>, so a property that is not their
  own is looked up in \<open>Object.prototype\<close>, whose members are functions, except \<open>__proto__\<close>,
  which gives \<open>Object.prototype\<close> itself. A string value has its indices and \<open>length\<close>
  and the members of \<open>String.prototype\<close> and \<open>Object.prototype\<close> (ECMAScript 2024).
\<close>

definition object_prototype_members :: "string list" where
  "object_prototype_members =
     [''constructor'', ''__defineGetter__'', ''__defineSetter__'', ''hasOwnProperty'',
      ''__lookupGetter__'', ''__lookupSetter__'', ''isPrototypeOf'', ''propertyIsEnumerable'',
      ''toString'', ''valueOf'', ''__proto__'', ''toLocaleString'']"

definition string_prototype_members :: "string list" where
  "string_prototype_members =
     [''anchor'', ''at'', ''big'', ''blink'', ''bold'', ''charAt'', ''charCodeAt'', ''codePointAt'',
      ''concat'', ''constructor'', ''endsWith'', ''fixed'', ''fontcolor'', ''fontsize'', ''includes'',
      ''indexOf'', ''isWellFormed'', ''italics'', ''lastIndexOf'', ''link'', ''localeCompare'',
      ''match'', ''matchAll'', ''normalize'', ''padEnd'', ''padStart'', ''repeat'', ''replace'',
      ''replaceAll'', ''search'', ''slice'', ''small'', ''split'', ''startsWith'', ''strike'', ''sub'',
      ''substr'', ''substring'', ''sup'', ''toLocaleLowerCase'', ''toLocaleUpperCase'',
      ''toLowerCase'', ''toString'', ''toUpperCase'', ''toWellFormed'', ''trim'', ''trimEnd'',
      ''trimLeft'', ''trimRight'', ''trimStart'', ''valueOf'']"

text \<open>Whether \<open>s[key]\<close> is truthy, for a non-empty string \<open>s\<close>.\<close>

definition string_property :: "string \<Rightarrow> string \<Rightarrow> bool" where
  "string_property s key =
     (case array_index key of
        Some i \<Rightarrow> i < length s
      | None \<Rightarrow> key = ''length'' \<or> key \<in> set string_prototype_members
                \<or> key \<in> set object_prototype_members)"

text \<open>
  The value of \<open>currentLevel[segment]\<close> after
  \<open>if (!currentLevel[segment]) currentLevel[segment] = {}\<close>: an own property that is an
  object or a non-empty string; a fresh object, for the empty string (which is falsy)
  and for a key that the node neither has nor inherits; a built-in object, for a key
  that the node inherits (it is truthy, so nothing is assigned).
\<close>

datatype level_value = Node "(string \<times> jsval) list" | Text string | Builtin

definition child_level :: "(string \<times> jsval) list \<Rightarrow> string \<Rightarrow> level_value" where
  "child_level level segment =
     (case get_prop level segment of
        None \<Rightarrow> if segment \<in> set object_prototype_members then Builtin else Node []
      | Some (VStr s) \<Rightarrow> if s = [] then Node [] else Text s
      | Some (VObj node) \<Rightarrow> Node node)"

text \<open>
  The walk of \<open>segments.forEach\<close> from \<open>currentLevel\<close>, for a non-empty list of segments.

  When \<open>currentLevel\<close> becomes a string (the segment is a verb key of that node), an
  assignment to a property of the primitive raises a \<open>TypeError\<close>: the assignment of
  \<open>$url\<close>, when the segment is the last one, and otherwise the assignment of a fresh
  object to the next segment, unless the string has a truthy property of that name;
  then the walk goes on in that property, outside the tree.

  When \<open>currentLevel\<close> becomes a built-in function (the segment names a member of
  \<open>Object.prototype\<close> other than \<open>__proto__\<close>) at the last segment, the type entry is
  stored and \<open>$url\<close> and the verb keys are written to the function: the tree is as the
  walk has made it so far. A walk that goes on inside a built-in object, or reaches
  \<open>Object.prototype\<close>, to which it would add properties that every object inherits, is
  not followed.
\<close>

fun descend :: "((string \<times> jsval) list \<Rightarrow> (string \<times> jsval) list) \<Rightarrow> (string \<times> jsval) list
    \<Rightarrow> string list \<Rightarrow> halt + (string \<times> jsval) list" where
  "descend leaf level [] = Inr (leaf level)"
| "descend leaf level (segment # rest) =
     (case child_level level segment of
        Text s \<Rightarrow>
          (case rest of
             [] \<Rightarrow> Inl (TypeError (''Cannot create property on string '' @ s))
           | key # others \<Rightarrow>
               if string_property s key then Inl (LeavesTree key)
               else Inl (TypeError (''Cannot create property on string '' @ s)))
      | Builtin \<Rightarrow>
          if rest = [] \<and> segment \<noteq> ''__proto__'' then Inr level else Inl (LeavesTree segment)
      | Node node \<Rightarrow>
          (case descend leaf node rest of
             Inl e \<Rightarrow> Inl e
           | Inr node' \<Rightarrow> Inr (set_prop level segment (VObj node'))))"

text \<open>
  The body of the loop of \<open>generate\<close> once the handler is resolved: \<open>file\<close> is the
  controller file, \<open>meth\<close> the handler's method name, \<open>schemaImport\<close> the result of
  \<open>#extractRequest\<close>. With no segment (the pattern \<open>/\<close>) the callback never runs.
\<close>

definition assign_route :: "helpers \<Rightarrow> string \<Rightarrow> source_file \<Rightarrow> string \<Rightarrow> string option \<Rightarrow> route
    \<Rightarrow> gen_state \<Rightarrow> halt + gen_state" where
  "assign_route h destDir file meth schemaImport r st =
     (let methods' = verb_keys (methods r);
          segments = filter_Boolean (js_split CHR ''/'' (pattern r));
          relativePath = relative h destDir (filePath file);
          typeName = generateTypeName h (pattern r) (methods r);
          entry = \<lparr> request = (case schemaImport of
                                  Some s \<Rightarrow> ''MakeTuyauRequest<'' @ s @ ''>''
                                | None \<Rightarrow> ''unknown''),
                    response = ''MakeTuyauResponse<import('' @ apostrophe @ relativePath @ apostrophe
                               @ '').default['' @ apostrophe @ meth @ apostrophe @ '']>'' \<rparr>
      in if segments = [] then Inr st
         else (case descend (leaf_update typeName methods') (definitionObj st) segments of
                 Inl e \<Rightarrow> Inl e
               | Inr d \<Rightarrow> Inr \<lparr> definitionObj = d,
                                typesByPattern = set_prop (typesByPattern st) typeName entry \<rparr>))"

text \<open>One turn of the loop over the routes: the log entries written, and the state or the error.\<close>

definition route_step :: "helpers \<Rightarrow> string \<Rightarrow> source_file list \<Rightarrow> route \<Rightarrow> gen_state
    \<Rightarrow> log_entry list \<times> (halt + gen_state)" where
  "route_step h destDir sourcesFiles r st =
     (case handler r of
        FunctionHandler \<Rightarrow> ([], Inr st)
      | Reference modulePath meth \<Rightarrow>
          (case find (\<lambda>sf. endsWith (filePath sf) (replace_hash modulePath @ ''.ts'')) sourcesFiles of
             None \<Rightarrow> ([Warning (''Unable to find the controller file for '' @ pattern r)], Inr st)
           | Some file \<Rightarrow>
               (case extractClassHandlerData file meth of
                  None \<Rightarrow>
                    ([Info (''Generating types for '' @ pattern r),
                      Warning (''Unable to find the controller method for '' @ pattern r)], Inr st)
                | Some handlerData \<Rightarrow>
                    (case extractRequest h destDir handlerData of
                       (schemaImport, warnings) \<Rightarrow>
                         (Info (''Generating types for '' @ pattern r) # warnings,
                          assign_route h destDir file meth schemaImport r st)))))"

fun routes_loop :: "helpers \<Rightarrow> string \<Rightarrow> source_file list \<Rightarrow> route list \<Rightarrow> gen_state
    \<Rightarrow> log_entry list \<times> (halt + gen_state)" where
  "routes_loop h destDir sourcesFiles [] st = ([], Inr st)"
| "routes_loop h destDir sourcesFiles (r # rs) st =
     (case route_step h destDir sourcesFiles r st of
        (logged, Inl e) \<Rightarrow> (logged, Inl e)
      | (logged, Inr st') \<Rightarrow>
          (case routes_loop h destDir sourcesFiles rs st' of
             (logged', res) \<Rightarrow> (logged @ logged', res)))"

subsection \<open>The array of named routes\<close>

record route_name_entry =
  params :: "string list"
  entry_name :: "string option"
  path :: string
  entry_method :: "string list"
  types :: string

text \<open>\<open>!!route.name\<close>: \<open>undefined\<close> and the empty string are falsy.\<close>

definition has_name :: "string option \<Rightarrow> bool" where
  "has_name n = (case n of None \<Rightarrow> False | Some s \<Rightarrow> s \<noteq> [])"

definition route_name_of :: "helpers \<Rightarrow> (string \<times> type_entry) list \<Rightarrow> route \<Rightarrow> route_name_entry" where
  "route_name_of h types_by_pattern r =
     (let params' = map val (filter (\<lambda>node. node_type node \<noteq> 0) (matchit_parse h (pattern r)));
          typeName = generateTypeName h (pattern r) (methods r);
          typeName' = (if get_prop types_by_pattern typeName = None then ''unknown'' else typeName)
      in \<lparr> params = params', entry_name = name r, path = pattern r,
           entry_method = methods r, types = typeName' \<rparr>)"

definition generateRoutesNameArray :: "helpers \<Rightarrow> route list \<Rightarrow> (string \<times> type_entry) list
    \<Rightarrow> route_name_entry list" where
  "generateRoutesNameArray h rs types_by_pattern =
     filter (\<lambda>e. has_name (entry_name e)) (map (route_name_of h types_by_pattern) rs)"

subsection \<open>The emitted file\<close>

text \<open>
  The writer of ts-morph (code-block-writer) at indentation level 0: \<open>writeLine\<close> starts
  a new line unless the text written so far ends with one, writes the text and ends the
  line; \<open>newLine\<close> ends the line; \<open>write\<close> (here \<open>write_text\<close>) appends the text.
\<close>

definition writeLine :: "string \<Rightarrow> string \<Rightarrow> string" where
  "writeLine written text' =
     (if written \<noteq> [] \<and> last written \<noteq> newline then written @ [newline] else written)
     @ text' @ [newline]"

definition newLine :: "string \<Rightarrow> string" where
  "newLine written = written @ [newline]"

definition write_text :: "string \<Rightarrow> string \<Rightarrow> string" where
  "write_text written text' = written @ text'"

definition writeLines :: "string \<Rightarrow> string list \<Rightarrow> string" where
  "writeLines written lines = foldl writeLine written lines"

text \<open>\<open>JSON.stringify\<close> of an array of strings.\<close>

definition hex_digit :: "nat \<Rightarrow> char" where
  "hex_digit n = ''0123456789abcdef'' ! (n mod 16)"

definition json_char :: "char \<Rightarrow> string" where
  "json_char c =
     (if c = CHR 0x22 then backslash @ dquote
      else if c = CHR 0x5C then backslash @ backslash
      else if c = CHR 0x08 then backslash @ ''b''
      else if c = CHR 0x0C then backslash @ ''f''
      else if c = CHR 0x0A then backslash @ ''n''
      else if c = CHR 0x0D then backslash @ ''r''
      else if c = CHR 0x09 then backslash @ ''t''
      else if (of_char c :: nat) < 32
        then backslash @ ''u00'' @ [hex_digit (of_char c div 16), hex_digit (of_char c)]
      else [c])"

definition json_string :: "string \<Rightarrow> string" where
  "json_string s = dquote @ concat (map json_char s) @ dquote"

definition json_string_array :: "string list \<Rightarrow> string" where
  "json_string_array xs = ''['' @ join '','' (map json_string xs) @ '']''"

text \<open>\<open>#generateDefinitionInterface\<close>\<close>

function generateDefinitionInterface :: "(string \<times> jsval) list \<Rightarrow> string \<Rightarrow> string" where
  "generateDefinitionInterface types' indent =
     concat (map (\<lambda>(key, value).
                    case value of
                      VObj node \<Rightarrow>
                        indent @ apostrophe @ key @ apostrophe @ '': {'' @ [newline]
                        @ generateDefinitionInterface node (indent @ ''  '')
                        @ indent @ ''};'' @ [newline]
                    | VStr s \<Rightarrow>
                        indent @ apostrophe @ key @ apostrophe @ '': '' @ s @ '';'' @ [newline])
                 (object_entries types'))"
  by pat_completeness auto
termination
proof (relation "measure (\<lambda>(kvs, i). size_list (size_prod (\<lambda>x. 0) size) kvs)", goal_cases)
  case 1
  show ?case by simp
next
  case (2 types' indent x key v node)
  have smaller: "(k, VObj n) \<in> set kvs \<Longrightarrow>
      size_list (size_prod (\<lambda>x. 0) size) n < size_list (size_prod (\<lambda>x. 0) size) kvs"
    for k n and kvs :: "(string \<times> jsval) list"
    by (induction kvs) auto
  from 2 have "(key, VObj node) \<in> set types'"
    by (auto simp: object_entries_def)
  then show ?case
    by (simp add: smaller)
qed

declare generateDefinitionInterface.simps [simp del]

definition type_alias_lines :: "string \<times> type_entry \<Rightarrow> string list" where
  "type_alias_lines kv =
     [''type '' @ fst kv @ '' = {'',
      ''  request: '' @ request (snd kv),
      ''  response: '' @ response (snd kv),
      ''}'']"

definition route_lines :: "route_name_entry \<Rightarrow> string list" where
  "route_lines e =
     [''  {'',
      ''    params: '' @ json_string_array (params e) @ '','',
      ''    name: '' @ apostrophe @ (case entry_name e of None \<Rightarrow> ''undefined'' | Some n \<Rightarrow> n)
        @ apostrophe @ '','',
      ''    path: '' @ apostrophe @ path e @ apostrophe @ '','',
      ''    method: '' @ json_string_array (entry_method e) @ '','',
      ''    types: {} as '' @ types e @ '','',
      ''  },'']"

text \<open>The text that the writer function of \<open>#writeApiFile\<close> produces.\<close>

definition api_file_text :: "route_name_entry list \<Rightarrow> gen_state \<Rightarrow> string" where
  "api_file_text routesNameArray st =
     (let w1 = newLine (writeLines []
                 [''import type { MakeTuyauRequest, MakeTuyauResponse } from ''
                    @ apostrophe @ ''@tuyau/utils/types'' @ apostrophe,
                  ''import type { InferInput } from '' @ apostrophe @ ''@vinejs/vine/types'' @ apostrophe]);
          w2 = foldl (\<lambda>w kv. writeLines w (type_alias_lines kv)) w1 (object_entries (typesByPattern st));
          w3 = writeLine (write_text (writeLine w2 ''export interface ApiDefinition {'')
                            (generateDefinitionInterface (definitionObj st) ''  '')) ''}'';
          w4 = writeLine (foldl (\<lambda>w e. writeLines w (route_lines e))
                            (writeLine w3 ''const routes = ['') routesNameArray) ''] as const;'';
          w5 = writeLines w4
                 [''export const api = {'', ''  routes,'', ''  definition: {} as ApiDefinition'', ''}''];
          w6 = writeLines w5
                 [''declare module '' @ apostrophe @ ''@tuyau/inertia/types'' @ apostrophe @ '' {'',
                  ''  type ApiDefinition = typeof api'',
                  ''  export interface Api extends ApiDefinition {}'',
                  ''}'']
      in w6)"

subsection \<open>The generator\<close>

text \<open>
  The options of the constructor. \<open>appRoot\<close> is the pathname of the application root
  URL, percent-encoded as \<open>URL.pathname\<close> gives it; the pathname of the destination
  \<open>new URL('./.adonisjs/api.ts', appRoot)\<close> is that path up to its last slash, followed
  by the relative part. \<open>project\<close> holds the source files of the ts-morph project, in
  the order of \<open>getSourceFiles()\<close>.
\<close>

record api_types_generator =
  appRoot :: string
  project :: "source_file list"
  config :: tuyau_config
  routes :: "route list"

definition up_to_last_slash :: "string \<Rightarrow> string" where
  "up_to_last_slash p = rev (dropWhile (\<lambda>c. c \<noteq> CHR ''/'') (rev p))"

definition destination :: "api_types_generator \<Rightarrow> string" where
  "destination g = up_to_last_slash (appRoot g) @ ''.adonisjs/api.ts''"

text \<open>\<open>dirname\<close> (node:path) of a path with a directory part.\<close>

definition dirname :: "string \<Rightarrow> string" where
  "dirname p =
     (let d = butlast (up_to_last_slash p)
      in if d = [] then (if startsWith p ''/'' then ''/'' else ''.'') else d)"

text \<open>
  \<open>#getDestinationDirectory\<close> takes the directory from the pathname of the URL, whereas
  \<open>#writeApiFile\<close> writes at \<open>fileURLToPath(this.#destination)\<close>, the decoded path.
\<close>

definition getDestinationDirectory :: "api_types_generator \<Rightarrow> string" where
  "getDestinationDirectory g = dirname (destination g)"

definition destination_file :: "helpers \<Rightarrow> api_types_generator \<Rightarrow> string" where
  "destination_file h g = fileURLToPath h (destination g)"

text \<open>
  The file system is a map from paths to contents. \<open>#writeApiFile\<close> creates the source
  file with \<open>overwrite: true\<close>, replaces its text and saves it.
\<close>

type_synonym file_system = "string \<rightharpoonup> string"

definition writeApiFile :: "helpers \<Rightarrow> api_types_generator \<Rightarrow> route_name_entry list \<Rightarrow> gen_state
    \<Rightarrow> file_system \<Rightarrow> file_system" where
  "writeApiFile h g routesNameArray st fs =
     fs(destination_file h g \<mapsto> api_file_text routesNameArray st)"

text \<open>
  \<open>generate\<close> up to the call of \<open>#writeApiFile\<close>: the routes kept for the definitions,
  the loop over them, and the array of named routes. The filter of the mode \<open>routes\<close>
  runs on the configuration as the filter of the mode \<open>definitions\<close> has left it.
\<close>

definition definition_routes :: "api_types_generator \<Rightarrow> route list" where
  "definition_routes g = fst (filterRoutes (config g) (routes g) Definitions)"

definition config_after_definitions :: "api_types_generator \<Rightarrow> tuyau_config" where
  "config_after_definitions g = snd (filterRoutes (config g) (routes g) Definitions)"

definition named_routes :: "api_types_generator \<Rightarrow> route list" where
  "named_routes g = fst (filterRoutes (config_after_definitions g) (definition_routes g) Routes)"

definition config_after_routes :: "api_types_generator \<Rightarrow> tuyau_config" where
  "config_after_routes g = snd (filterRoutes (config_after_definitions g) (definition_routes g) Routes)"

definition collect :: "helpers \<Rightarrow> api_types_generator
    \<Rightarrow> log_entry list \<times> (halt + gen_state \<times> route_name_entry list)" where
  "collect h g =
     (case routes_loop h (getDestinationDirectory g) (project g) (definition_routes g)
             \<lparr> definitionObj = [], typesByPattern = [] \<rparr> of
        (logged, Inl e) \<Rightarrow> (logged, Inl e)
      | (logged, Inr st) \<Rightarrow>
          (logged, Inr (st, generateRoutesNameArray h (named_routes g) (typesByPattern st))))"

definition generate :: "helpers \<Rightarrow> api_types_generator \<Rightarrow> file_system
    \<Rightarrow> log_entry list \<times> (halt + file_system)" where
  "generate h g fs =
     (case collect h g of
        (logged, Inl e) \<Rightarrow> (logged, Inl e)
      | (logged, Inr (st, routesNameArray)) \<Rightarrow> (logged, Inr (writeApiFile h g routesNameArray st fs)))"

text \<open>
  What a run of \<open>generate\<close> leaves behind in the generator. The configuration is as the
  last filter that ran has left it: the filter of the mode \<open>routes\<close>, or, when the loop
  over the routes raised, the filter of the mode \<open>definitions\<close>.
\<close>

definition config_after :: "helpers \<Rightarrow> api_types_generator \<Rightarrow> tuyau_config" where
  "config_after h g =
     (case snd (collect h g) of
        Inl e \<Rightarrow> config_after_definitions g
      | Inr res \<Rightarrow> config_after_routes g)"

text \<open>
  \<open>this.#project.createSourceFile(path, '', { overwrite: true })\<close> of ts-morph: afterwards
  the project has a source file of that path; its other source files are the same
  (with the implementations found for their identifiers), in the same order. Where
  the file stands among them in \<open>getSourceFiles()\<close>, and what the parser finds in the
  text written, is left open.
\<close>

definition overwritten :: "string \<Rightarrow> source_file list \<Rightarrow> source_file list \<Rightarrow> bool" where
  "overwritten p before after =
     (list_ex (\<lambda>sf. filePath sf = p) after
      \<and> filter (\<lambda>sf. filePath sf \<noteq> p) after = filter (\<lambda>sf. filePath sf \<noteq> p) before)"

text \<open>
  \<open>after_generate h g g'\<close>: \<open>g'\<close> is the generator \<open>g\<close> as a run of \<open>generate\<close> can leave
  it. The root and the route list are not assigned to; the source file is created
  only when the run reaches \<open>#writeApiFile\<close>.
\<close>

definition after_generate :: "helpers \<Rightarrow> api_types_generator \<Rightarrow> api_types_generator \<Rightarrow> bool" where
  "after_generate h g g' =
     (appRoot g' = appRoot g \<and> routes g' = routes g \<and> config g' = config_after h g
      \<and> (case snd (collect h g) of
            Inl e \<Rightarrow> project g' = project g
          | Inr res \<Rightarrow> overwritten (destination_file h g) (project g) (project g')))"

subsection \<open>Models of the imported helpers\<close>

text \<open>
  Modelled from the spec: \<open>string.pascalCase\<close> is imported from @adonisjs/core and is not
  in the repository. The spec only says ``convert to PascalCase'': the words of the
  text (maximal runs of ASCII letters and digits) are each written with an upper-case
  first character and lower-case rest, and concatenated.
\<close>

definition alphanumeric :: "char \<Rightarrow> bool" where
  "alphanumeric c = (c \<in> set ''abcdefghijklmnopqrstuvwxyzABCDEFGHIJKLMNOPQRSTUVWXYZ0123456789'')"

definition capitalise :: "string \<Rightarrow> string" where
  "capitalise w = (case w of [] \<Rightarrow> [] | c # cs \<Rightarrow> upper_char c # map lower_char cs)"

definition pascalCase_model :: "string \<Rightarrow> string" where
  "pascalCase_model s =
     concat (map capitalise (filter_Boolean (split_where (\<lambda>c. \<not> alphanumeric c) s)))"

text \<open>
  Modelled from the spec: the pattern parser (\<open>matchit.parse\<close> of @poppinss/matchit) is an
  external collaborator that ``converts a URL pattern into an ordered sequence of
  segments, tagging each as static or dynamic (parameter)''; a parameter segment is
  one that starts with the sigil \<open>:\<close>, and its value is the rest of the segment.
\<close>

definition parse_model :: "string \<Rightarrow> matchit_node list" where
  "parse_model pat =
     map (\<lambda>segment. if startsWith segment '':''
                     then \<lparr> node_type = 1, val = tl segment \<rparr>
                     else \<lparr> node_type = 0, val = segment \<rparr>)
         (filter_Boolean (js_split CHR ''/'' pat))"

text \<open>
  \<open>relative\<close> of node:path on two absolute, normalised POSIX paths: the common leading
  directories are dropped, and one \<open>..\<close> is written for every directory left of the first.
\<close>

fun drop_common :: "string list \<Rightarrow> string list \<Rightarrow> string list \<times> string list" where
  "drop_common (x # xs) (y # ys) = (if x = y then drop_common xs ys else (x # xs, y # ys))"
| "drop_common xs ys = (xs, ys)"

definition relative_model :: "string \<Rightarrow> string \<Rightarrow> string" where
  "relative_model from' to' =
     (case drop_common (filter_Boolean (js_split CHR ''/'' from')) (filter_Boolean (js_split CHR ''/'' to')) of
        (ups, downs) \<Rightarrow> join ''/'' (map (\<lambda>d. ''..'') ups @ downs))"

text \<open>
  \<open>fileURLToPath\<close> of node:url on the pathname of a POSIX file URL: every escape \<open>%XX\<close>
  of two hexadecimal digits is replaced by the character of that code.
\<close>

definition hex_value :: "char \<Rightarrow> nat option" where
  "hex_value c = map_of (zip ''0123456789abcdefABCDEF'' ([0 ..< 16] @ [10 ..< 16])) c"

fun percent_decode :: "string \<Rightarrow> string" where
  "percent_decode (c # a # b # cs) =
     (case (c = CHR ''%'', hex_value a, hex_value b) of
        (True, Some x, Some y) \<Rightarrow> char_of (16 * x + y) # percent_decode cs
      | _ \<Rightarrow> c # percent_decode (a # b # cs))"
| "percent_decode cs = cs"

definition model_helpers :: helpers where
  "model_helpers = \<lparr> pascalCase = pascalCase_model, relative = relative_model,
                     matchit_parse = parse_model, fileURLToPath = percent_decode \<rparr>"

subsection \<open>The algorithms in the words of the specification\<close>

text \<open>
  The segments of a pattern as the specification describes them: the non-empty pieces
  between slashes, from left to right.
\<close>

fun segments_from :: "string \<Rightarrow> string \<Rightarrow> string list" where
  "segments_from cur [] = (if cur = [] then [] else [cur])"
| "segments_from cur (c # cs) =
     (if c = CHR ''/'' then (if cur = [] then segments_from [] cs else cur # segments_from [] cs)
      else segments_from (cur @ [c]) cs)"

definition pattern_segments :: "string \<Rightarrow> string list" where
  "pattern_segments pat = segments_from [] pat"

text \<open>
  Type-name synthesis in the words of the specification: every segment that begins
  with the parameter sigil becomes \<open>id\<close>, the segments joined by spaces are put in
  PascalCase, and so is the joined method list.
\<close>

definition typeName_spec :: "helpers \<Rightarrow> string \<Rightarrow> string list \<Rightarrow> string" where
  "typeName_spec h pat ms =
     pascalCase h (join '' '' (map (\<lambda>seg. if hd seg = CHR '':'' then ''id'' else seg) (pattern_segments pat)))
     @ pascalCase h (join '' '' ms)"

text \<open>The names of the parameter segments of a pattern, from left to right.\<close>

definition parameter_names :: "string \<Rightarrow> string list" where
  "parameter_names pat = map tl (filter (\<lambda>seg. hd seg = CHR '':'') (pattern_segments pat))"

text \<open>A route passes the filter of a mode when the filter, run on the route alone, keeps it.\<close>

definition passes :: "tuyau_config \<Rightarrow> filter_mode \<Rightarrow> route \<Rightarrow> bool" where
  "passes cfg mode r = (fst (filterRoutes cfg [r] mode) = [r])"

text \<open>
  A pattern matches an entry when it equals the string, or when the regular expression
  matches it, searched from its start. \<open>only\<close> or \<open>except\<close> is a function when
  \<open>typeof\<close> says so. A filter is flagless when none of the regular expressions in its
  array has the flag \<open>g\<close> or \<open>y\<close>, and a configuration is when the filters of both modes
  are.
\<close>

definition matches :: "regexp_table \<Rightarrow> route_matcher \<Rightarrow> string \<Rightarrow> bool" where
  "matches objs m p =
     (case m of Literal s \<Rightarrow> p = s | RegExp ref \<Rightarrow> exec_at (objs ref) p 0 \<noteq> None)"

definition is_function :: "route_filter option \<Rightarrow> bool" where
  "is_function f = (case f of Some (Predicate g) \<Rightarrow> True | _ \<Rightarrow> False)"

definition flagless :: "regexp_table \<Rightarrow> route_filter option \<Rightarrow> bool" where
  "flagless objs f =
     (case f of
        Some (Patterns ps) \<Rightarrow>
          list_all (\<lambda>m. case m of
                          Literal s \<Rightarrow> True
                        | RegExp ref \<Rightarrow> \<not> global (objs ref) \<and> \<not> sticky (objs ref)) ps
      | _ \<Rightarrow> True)"

definition flagless_config :: "tuyau_config \<Rightarrow> bool" where
  "flagless_config cfg =
     list_all (\<lambda>mode. case mode_config cfg mode of
                        None \<Rightarrow> True
                      | Some c \<Rightarrow> flagless (regexps cfg) (only c) \<and> flagless (regexps cfg) (except c))
       [Definitions, Routes]"

text \<open>
  The generated file is never taken for a controller when no handler reference of a
  route matches its path.
\<close>

definition destination_unmatched :: "helpers \<Rightarrow> api_types_generator \<Rightarrow> bool" where
  "destination_unmatched h g =
     list_all (\<lambda>r. case handler r of
                     FunctionHandler \<Rightarrow> True
                   | Reference modulePath meth \<Rightarrow>
                       \<not> endsWith (destination_file h g) (replace_hash modulePath @ ''.ts''))
       (routes g)"

text \<open>The text of a list of lines, each ended by a line feed.\<close>

definition lines_text :: "string list \<Rightarrow> string" where
  "lines_text ls = concat (map (\<lambda>l. l @ [newline]) ls)"

text \<open>
  A handler reference cannot be resolved when no source file ends with the module path,
  or the file has no default-exported class, or the class has no method of that name
  (or the method has no body).
\<close>

definition handler_unresolved :: "source_file list \<Rightarrow> string \<Rightarrow> string \<Rightarrow> bool" where
  "handler_unresolved sourcesFiles modulePath meth =
     (case find (\<lambda>sf. endsWith (filePath sf) (replace_hash modulePath @ ''.ts'')) sourcesFiles of
        None \<Rightarrow> True
      | Some file \<Rightarrow>
          (case find isDefaultExport (classes file) of
             None \<Rightarrow> True
           | Some classDef \<Rightarrow>
               (case find (\<lambda>m. method_name m = meth) (class_methods classDef) of
                  None \<Rightarrow> True
                | Some m \<Rightarrow> \<not> has_body m)))"

definition is_warning :: "log_entry \<Rightarrow> bool" where
  "is_warning e = (case e of Warning w \<Rightarrow> True | Info i \<Rightarrow> False)"





subsection \<open>Example inputs\<close>

text \<open>
  An application in \<open>/app/\<close> with two controllers. \<open>UsersController.index\<close> validates
  nothing; \<open>PostsController.store\<close> calls \<open>request.validateUsing(vine.compile(schema))\<close>,
  whose first argument is a call, not an identifier.
\<close>

definition users_controller :: source_file where
  "users_controller =
     \<lparr> filePath = ''/app/app/controllers/users_controller.ts'',
       classes = [\<lparr> isDefaultExport = True,
                    class_methods = [\<lparr> method_name = ''index'', method_children = [],
                                       has_body = True \<rparr>] \<rparr>] \<rparr>"



definition users_index :: route where
  "users_index = \<lparr> pattern = ''/users'', methods = [''GET'', ''HEAD''],
                    handler = Reference ''#controllers/users_controller'' ''index'',
                    name = Some ''users.index'' \<rparr>"

definition admin_index :: route where
  "admin_index = \<lparr> pattern = ''/admin'', methods = [''GET'', ''HEAD''],
                    handler = Reference ''#controllers/admin_controller'' ''index'',
                    name = Some ''admin.index'' \<rparr>"

definition users_show :: route where
  "users_show = \<lparr> pattern = ''/users/:id'', methods = [''GET''],
                   handler = Reference ''#controllers/users_controller'' ''index'',
                   name = None \<rparr>"


definition comments_edit :: route where
  "comments_edit = \<lparr> pattern = ''/users/:id/comments/:commentId'', methods = [''GET''],
                      handler = FunctionHandler, name = Some ''users.comments.edit'' \<rparr>"


definition missing_index :: route where
  "missing_index = \<lparr> pattern = ''/missing'', methods = [''GET''],
                      handler = Reference ''#controllers/missing_controller'' ''index'',
                      name = Some ''missing.index'' \<rparr>"

text \<open>
  The regular expression \<open>/^\/users/\<close>, and \<open>/^\/users/g\<close> when \<open>g\<close> holds: a match is
  found only by a search started at index 0, in a subject that starts with \<open>/users\<close>,
  and it ends at index 6. \<open>no_regexp\<close> matches nothing. In the examples the table holds
  the same expression under every reference.
\<close>

definition users_prefix_regexp :: "bool \<Rightarrow> regexp" where
  "users_prefix_regexp g =
     \<lparr> global = g, sticky = False,
       exec_at = (\<lambda>subject i. if i = 0 \<and> startsWith subject ''/users'' then Some 6 else None),
       lastIndex = 0 \<rparr>"

definition no_regexp :: regexp where
  "no_regexp = \<lparr> global = False, sticky = False, exec_at = (\<lambda>subject i. None), lastIndex = 0 \<rparr>"

definition no_filters :: tuyau_config where
  "no_filters = \<lparr> codegen = None, regexps = (\<lambda>ref. no_regexp) \<rparr>"

definition both_modes :: "filter_config \<Rightarrow> tuyau_config" where
  "both_modes c = \<lparr> codegen = Some \<lparr> definitions_filter = Some c, routes_filter = Some c \<rparr>,
                    regexps = (\<lambda>ref. users_prefix_regexp False) \<rparr>"

definition only_users :: filter_config where
  "only_users = \<lparr> only = Some (Patterns [RegExp 0]), except = None \<rparr>"

definition only_admin_except_function :: filter_config where
  "only_admin_except_function =
     \<lparr> only = Some (Patterns [Literal ''/admin'']),
       except = Some (Predicate (\<lambda>r. pattern r = ''/admin'')) \<rparr>"

definition empty_config :: filter_config where
  "empty_config = \<lparr> only = None, except = None \<rparr>"

definition only_function_except_users :: filter_config where
  "only_function_except_users =
     \<lparr> only = Some (Predicate (\<lambda>r. pattern r = ''/users'')),
       except = Some (Patterns [Literal ''/users'']) \<rparr>"

definition only_users_global :: tuyau_config where
  "only_users_global =
     \<lparr> codegen = Some \<lparr> definitions_filter = Some only_users, routes_filter = None \<rparr>,
       regexps = (\<lambda>ref. users_prefix_regexp True) \<rparr>"

definition except_admin :: filter_config where
  "except_admin = \<lparr> only = None, except = Some (Patterns [Literal ''/admin'']) \<rparr>"

definition only_users_except_users :: filter_config where
  "only_users_except_users =
     \<lparr> only = Some (Patterns [Literal ''/users'']), except = Some (Patterns [Literal ''/users'']) \<rparr>"

definition definitions_except_admin :: tuyau_config where
  "definitions_except_admin =
     \<lparr> codegen = Some \<lparr> definitions_filter = Some except_admin, routes_filter = None \<rparr>,
       regexps = (\<lambda>ref. no_regexp) \<rparr>"

definition head_generator :: api_types_generator where
  "head_generator = \<lparr> appRoot = ''/app/'', project = [users_controller],
                       config = no_filters, routes = [users_index] \<rparr>"


definition admin_generator :: api_types_generator where
  "admin_generator = \<lparr> appRoot = ''/app/'', project = [users_controller],
                        config = definitions_except_admin, routes = [admin_index, users_index] \<rparr>"







text \<open>
  A generator whose configuration has \<open>only: [/^\/users/g]\<close> for the definitions, and
  whose project already has the generated file of an earlier generation; and the same
  generator as its run leaves it: only the configuration has changed. The last example
  is a generator after a run that has put the generated file in front of the source
  files of the project.
\<close>

definition api_source_file :: source_file where
  "api_source_file = \<lparr> filePath = ''/app/.adonisjs/api.ts'', classes = [] \<rparr>"

definition global_generator :: api_types_generator where
  "global_generator = \<lparr> appRoot = ''/app/'', project = [users_controller, api_source_file],
                         config = only_users_global, routes = [users_index] \<rparr>"

definition global_generator_after :: api_types_generator where
  "global_generator_after =
     global_generator\<lparr> config := config_after model_helpers global_generator \<rparr>"

definition admin_generator_after :: api_types_generator where
  "admin_generator_after = admin_generator\<lparr> project := [api_source_file, users_controller] \<rparr>"

text \<open>
  An application whose controller is \<open>app/api.ts\<close>, referred to as \<open>#api\<close>: the
  reference also matches the path of the generated file.
\<close>

definition api_controller :: source_file where
  "api_controller =
     \<lparr> filePath = ''/app/app/api.ts'',
       classes = [\<lparr> isDefaultExport = True,
                    class_methods = [\<lparr> method_name = ''index'', method_children = [],
                                       has_body = True \<rparr>] \<rparr>] \<rparr>"

definition api_index :: route where
  "api_index = \<lparr> pattern = ''/api'', methods = [''GET''],
                  handler = Reference ''#api'' ''index'', name = Some ''api.index'' \<rparr>"

definition api_generator :: api_types_generator where
  "api_generator = \<lparr> appRoot = ''/app/'', project = [api_controller],
                      config = no_filters, routes = [api_index] \<rparr>"

definition api_generator_after :: api_types_generator where
  "api_generator_after = api_generator\<lparr> project := [api_source_file, api_controller] \<rparr>"

section \<open>Properties\<close>

lemmas evaluation_defs =
  collect_def definition_routes_def named_routes_def config_after_definitions_def
  filterRoutes_def mode_config_def no_filters_def
  getDestinationDirectory_def destination_def dirname_def up_to_last_slash_def
  route_step_def endsWith_def extractClassHandlerData_def extractRequest_def assign_route_def
  verb_keys_def toLowerCase_def lower_char_def upper_char_def filter_Boolean_def js_split_def
  generateTypeName_def model_helpers_def pascalCase_model_def capitalise_def alphanumeric_def
  startsWith_def leaf_update_def child_level_def object_prototype_members_def get_prop_def
  generateRoutesNameArray_def
  route_name_of_def has_name_def parse_model_def relative_model_def apostrophe_def Let_def

subsection \<open>Verb keys at the terminal node\<close>

text \<open>
  C1 (the terminal node never receives a verb key for the HEAD method). The code compares
  the key with \<open>head\<close> after the \<open>$\<close> has been put in front of it, so the test never
  removes anything: the verb keys of a route are the keys of all its methods. For the
  route \<open>/users\<close> with the methods GET and HEAD, handled by \<open>UsersController.index\<close>,
  the terminal node gets the key \<open>$head\<close> beside \<open>$get\<close>.
\<close>

theorem head_verb_key_is_assigned:
  "verb_keys ms = map (\<lambda>m. ''$'' @ toLowerCase m) ms
   \<and> verb_keys [''GET'', ''HEAD''] = [''$get'', ''$head'']
   \<and> map_sum id (\<lambda>res. get_prop (definitionObj (fst res)) ''users'')
        (snd (collect model_helpers head_generator))
     = Inr (Some (VObj [(''$url'', VObj []), (''$get'', VStr ''UsersGetHead''),
                        (''$head'', VStr ''UsersGetHead'')]))"
proof (intro conjI)
  show "verb_keys ms = map (\<lambda>m. ''$'' @ toLowerCase m) ms"
    by (induction ms) (simp_all add: verb_keys_def)
  show "verb_keys [''GET'', ''HEAD''] = [''$get'', ''$head'']"
    by (simp add: verb_keys_def toLowerCase_def lower_char_def)
  show "map_sum id (\<lambda>res. get_prop (definitionObj (fst res)) ''users'')
        (snd (collect model_helpers head_generator))
     = Inr (Some (VObj [(''$url'', VObj []), (''$get'', VStr ''UsersGetHead''),
                        (''$head'', VStr ''UsersGetHead'')]))"
    by (simp add: evaluation_defs head_generator_def users_index_def users_controller_def)
qed

subsection \<open>Type names\<close>

lemma split_where_not_Nil: "split_where p s \<noteq> []"
  by (induction s) (auto split: list.splits)

lemma segments_from_split:
  "segments_from cur s =
     filter_Boolean (case js_split CHR ''/'' s of [] \<Rightarrow> [cur] | w # ws \<Rightarrow> (cur @ w) # ws)"
proof (induction s arbitrary: cur)
  case Nil
  then show ?case by (simp add: js_split_def filter_Boolean_def)
next
  case (Cons c cs)
  obtain w ws where w: "split_where (\<lambda>c. c = CHR ''/'') cs = w # ws"
    using split_where_not_Nil by (cases "split_where (\<lambda>c. c = CHR ''/'') cs") auto
  show ?case
    using Cons[of "[]"] Cons[of "cur @ [c]"] w
    by (simp add: js_split_def filter_Boolean_def)
qed

lemma pattern_segments_split: "filter_Boolean (js_split CHR ''/'' pat) = pattern_segments pat"
  using split_where_not_Nil[of "\<lambda>c. c = CHR ''/''" pat]
  by (cases "split_where (\<lambda>c. c = CHR ''/'') pat")
     (simp_all add: pattern_segments_def segments_from_split js_split_def)

lemma segments_from_nonempty: "seg \<in> set (segments_from cur s) \<Longrightarrow> seg \<noteq> []"
  by (induction s arbitrary: cur) (auto split: if_splits)

lemma startsWith_colon: "seg \<noteq> [] \<Longrightarrow> startsWith seg '':'' = (hd seg = CHR '':'')"
  by (cases seg) (simp_all add: startsWith_def)

text \<open>
  C2 (type-name synthesis). \<open>#generateTypeName\<close> computes what the specification
  describes, for every pattern, method list and PascalCase conversion: the non-empty
  segments of the pattern, each one that starts with \<open>:\<close> replaced by \<open>id\<close>, joined by
  spaces and converted, followed by the converted method list, from which HEAD is not
  removed. With the modelled conversion, \<open>/users/:id/comments/:commentId\<close> with GET gives
  \<open>UsersIdCommentsIdGet\<close>, and \<open>/users\<close> with GET and HEAD gives \<open>UsersGetHead\<close>.
\<close>

theorem generateTypeName_algorithm:
  "generateTypeName h pat ms = typeName_spec h pat ms
   \<and> generateTypeName model_helpers ''/users/:id/comments/:commentId'' [''GET'']
       = ''UsersIdCommentsIdGet''
   \<and> generateTypeName model_helpers ''/users'' [''GET'', ''HEAD''] = ''UsersGetHead''"
proof (intro conjI)
  have eq: "map (\<lambda>segment. if startsWith segment '':'' then ''id'' else segment) (pattern_segments pat)
      = map (\<lambda>seg. if hd seg = CHR '':'' then ''id'' else seg) (pattern_segments pat)"
    by (rule map_cong[OF refl])
       (simp add: startsWith_colon segments_from_nonempty pattern_segments_def)
  show "generateTypeName h pat ms = typeName_spec h pat ms"
    by (simp only: generateTypeName_def typeName_spec_def pattern_segments_split Let_def eq)
  show "generateTypeName model_helpers ''/users/:id/comments/:commentId'' [''GET'']
      = ''UsersIdCommentsIdGet''"
    by (simp add: evaluation_defs)
  show "generateTypeName model_helpers ''/users'' [''GET'', ''HEAD''] = ''UsersGetHead''"
    by (simp add: evaluation_defs)
qed

theorem generateTypeName_algorithm_witness:
  "generateTypeName model_helpers ''/posts/:slug'' [''POST''] = ''PostsIdPost''
   \<and> typeName_spec model_helpers ''/posts/:slug'' [''POST''] = ''PostsIdPost''"
  using generateTypeName_algorithm[of model_helpers "''/posts/:slug''" "[''POST'']"]
  by (simp add: evaluation_defs)

subsection \<open>The route filter\<close>

lemma regexp_test_flagless:
  "\<not> global r \<Longrightarrow> \<not> sticky r \<Longrightarrow> regexp_test r s = (exec_at r s 0 \<noteq> None, r)"
  by (simp add: regexp_test_def)

lemma only_loop_flagless:
  "flagless objs (Some (Patterns ps)) \<Longrightarrow>
   only_loop objs ps p = ((\<exists>m\<in>set ps. matches objs m p), objs)"
proof (induction ps)
  case Nil
  show ?case by simp
next
  case (Cons m ps)
  from Cons.prems have "entry_hits objs m p = (matches objs m p, objs)"
    by (cases m) (simp_all add: flagless_def matches_def regexp_test_flagless)
  moreover from Cons.prems have "flagless objs (Some (Patterns ps))"
    by (simp add: flagless_def)
  ultimately show ?case
    using Cons.IH by simp
qed

lemma except_loop_flagless:
  "flagless objs (Some (Patterns qs)) \<Longrightarrow>
   except_loop objs qs p = ((\<forall>m\<in>set qs. \<not> matches objs m p), objs)"
proof (induction qs)
  case Nil
  show ?case by simp
next
  case (Cons m qs)
  from Cons.prems have "entry_hits objs m p = (matches objs m p, objs)"
    by (cases m) (simp_all add: flagless_def matches_def regexp_test_flagless)
  moreover from Cons.prems have "flagless objs (Some (Patterns qs))"
    by (simp add: flagless_def)
  ultimately show ?case
    using Cons.IH by simp
qed

lemma filter_with_pure:
  assumes "\<And>r. keep_route c objs r = (k r, objs)"
  shows "filter_with c objs rs = (filter k rs, objs)"
  by (induction rs) (simp_all add: assms)

lemma filter_with_subseq: "subseq (fst (filter_with c objs rs)) rs"
proof (induction rs arbitrary: objs)
  case Nil
  show ?case by simp
next
  case (Cons r rs)
  obtain keep objs' where k: "keep_route c objs r = (keep, objs')"
    by (cases "keep_route c objs r")
  obtain kept objs'' where f: "filter_with c objs' rs = (kept, objs'')"
    by (cases "filter_with c objs' rs")
  from Cons.IH[of objs'] f have "subseq kept rs"
    by simp
  then show ?case
    by (auto simp: k f intro: list_emb_Cons)
qed

lemma filterRoutes_subseq: "subseq (fst (filterRoutes cfg rs mode)) rs"
proof (cases "mode_config cfg mode")
  case None
  then show ?thesis by (simp add: filterRoutes_def)
next
  case (Some c)
  obtain kept objs' where f: "filter_with c (regexps cfg) rs = (kept, objs')"
    by (cases "filter_with c (regexps cfg) rs")
  with filter_with_subseq[of c "regexps cfg" rs] have "subseq kept rs"
    by simp
  with Some f show ?thesis
    by (simp add: filterRoutes_def)
qed

lemma filterRoutes_pure:
  assumes "mode_config cfg mode = Some c" and "only c \<noteq> None \<or> except c \<noteq> None"
    and "\<And>r. keep_route c (regexps cfg) r = (k r, regexps cfg)"
  shows "filterRoutes cfg rs mode = (filter k rs, cfg)"
  using assms(1,2) filter_with_pure[of c "regexps cfg" k rs, OF assms(3)]
  by (auto simp: filterRoutes_def)

lemma mode_config_both: "mode_config (both_modes c) mode = Some c"
  by (cases mode) (simp_all add: mode_config_def both_modes_def)

lemma regexps_both: "regexps (both_modes c) = (\<lambda>ref. users_prefix_regexp False)"
  by (simp add: both_modes_def)

text \<open>
  C3, as the claim states it, fails in two ways. The claim says that with an \<open>only\<close>
  list a route is kept exactly when its pattern matches some entry. First, a function
  under \<open>except\<close> is consulted before the \<open>only\<close> list: with \<open>only: ['/admin']\<close> and
  \<open>except: (r) => r.pattern === '/admin'\<close> the filter keeps \<open>/users\<close>, which matches no
  entry, and drops \<open>/admin\<close>, which matches one. Second, the test of a regular
  expression with the flag \<open>g\<close> starts at the \<open>lastIndex\<close> that the test before has left:
  with \<open>only: [/^\/users/g]\<close> the routes \<open>/users\<close>, \<open>/users/:id\<close> both match the
  expression, and the second is dropped.
\<close>

theorem only_list_counterexample:
  "mode_config (both_modes only_admin_except_function) Definitions = Some only_admin_except_function
   \<and> only only_admin_except_function = Some (Patterns [Literal ''/admin''])
   \<and> pattern users_index \<noteq> ''/admin'' \<and> pattern admin_index = ''/admin''
   \<and> fst (filterRoutes (both_modes only_admin_except_function) [users_index, admin_index] Definitions)
     = [users_index]
   \<and> mode_config only_users_global Definitions = Some only_users
   \<and> only only_users = Some (Patterns [RegExp 0]) \<and> except only_users = None
   \<and> matches (regexps only_users_global) (RegExp 0) (pattern users_index)
   \<and> matches (regexps only_users_global) (RegExp 0) (pattern users_show)
   \<and> fst (filterRoutes only_users_global [users_index, users_show] Definitions) = [users_index]"
proof -
  have "fst (filterRoutes (both_modes only_admin_except_function) [users_index, admin_index] Definitions)
      = [users_index]"
    by (simp add: filterRoutes_def mode_config_both only_admin_except_function_def keep_route_def
        users_index_def admin_index_def)
  moreover have "mode_config only_users_global Definitions = Some only_users"
    by (simp add: mode_config_def only_users_global_def)
  moreover have "matches (regexps only_users_global) (RegExp 0) (pattern users_index)
      \<and> matches (regexps only_users_global) (RegExp 0) (pattern users_show)"
    by (simp add: matches_def only_users_global_def users_prefix_regexp_def startsWith_def
        users_index_def users_show_def)
  moreover have "fst (filterRoutes only_users_global [users_index, users_show] Definitions)
      = [users_index]"
    by (simp add: filterRoutes_def mode_config_def only_users_global_def only_users_def
        keep_route_def regexp_test_def users_prefix_regexp_def startsWith_def
        users_index_def users_show_def)
  ultimately show ?thesis
    by (simp add: mode_config_both only_admin_except_function_def only_users_def
        users_index_def admin_index_def)
qed

text \<open>
  C3, amended. The routes are returned unchanged when there is no filter configuration
  for the mode, and when the configuration has neither \<open>only\<close> nor \<open>except\<close>. A function
  is consulted before any list: a function under \<open>only\<close> decides alone, and otherwise a
  function under \<open>except\<close> decides alone (a route is kept exactly when the function
  rejects it), whatever list \<open>only\<close> holds. Otherwise, with an \<open>only\<close> list whose regular
  expressions have neither the flag \<open>g\<close> nor \<open>y\<close>, a route is kept exactly when its
  pattern equals a string entry or is matched by a regular-expression entry, and an
  \<open>except\<close> list beside it is never looked at; with an \<open>except\<close> list alone, under the
  same condition, a route is kept exactly when its pattern matches no entry. In all
  these cases the configuration is left as it was. Whatever the configuration, the
  result is a subsequence of the input. With \<open>only: [/^\/users/]\<close> the routes \<open>/users\<close>,
  \<open>/admin\<close> are filtered to \<open>/users\<close>, and so they are with \<open>except: ['/admin']\<close>.
\<close>

theorem filterRoutes_contract:
  "(mode_config cfg mode = None \<longrightarrow> filterRoutes cfg rs mode = (rs, cfg))
   \<and> (mode_config cfg mode = Some c \<and> only c = None \<and> except c = None
      \<longrightarrow> filterRoutes cfg rs mode = (rs, cfg))
   \<and> (mode_config cfg mode = Some c \<and> only c = Some (Predicate f)
      \<longrightarrow> filterRoutes cfg rs mode = (filter f rs, cfg))
   \<and> (mode_config cfg mode = Some c \<and> \<not> is_function (only c) \<and> except c = Some (Predicate f)
      \<longrightarrow> filterRoutes cfg rs mode = (filter (\<lambda>r. \<not> f r) rs, cfg))
   \<and> (mode_config cfg mode = Some c \<and> only c = Some (Patterns ps) \<and> \<not> is_function (except c)
        \<and> flagless (regexps cfg) (only c)
      \<longrightarrow> filterRoutes cfg rs mode
          = (filter (\<lambda>r. \<exists>m\<in>set ps. matches (regexps cfg) m (pattern r)) rs, cfg))
   \<and> (mode_config cfg mode = Some c \<and> only c = None \<and> except c = Some (Patterns qs)
        \<and> flagless (regexps cfg) (except c)
      \<longrightarrow> filterRoutes cfg rs mode
          = (filter (\<lambda>r. \<forall>m\<in>set qs. \<not> matches (regexps cfg) m (pattern r)) rs, cfg))
   \<and> subseq (fst (filterRoutes cfg rs mode)) rs
   \<and> fst (filterRoutes (both_modes only_users) [users_index, admin_index] mode) = [users_index]
   \<and> fst (filterRoutes (both_modes except_admin) [users_index, admin_index] mode) = [users_index]"
proof (intro conjI impI)
  assume "mode_config cfg mode = None"
  then show "filterRoutes cfg rs mode = (rs, cfg)"
    by (simp add: filterRoutes_def)
next
  assume "mode_config cfg mode = Some c \<and> only c = None \<and> except c = None"
  then show "filterRoutes cfg rs mode = (rs, cfg)"
    by (simp add: filterRoutes_def)
next
  assume a: "mode_config cfg mode = Some c \<and> only c = Some (Predicate f)"
  then have "keep_route c (regexps cfg) r = (f r, regexps cfg)" for r
    by (simp add: keep_route_def)
  with a show "filterRoutes cfg rs mode = (filter f rs, cfg)"
    by (intro filterRoutes_pure[of cfg mode c]) simp_all
next
  assume a: "mode_config cfg mode = Some c \<and> \<not> is_function (only c) \<and> except c = Some (Predicate f)"
  then have "keep_route c (regexps cfg) r = (\<not> f r, regexps cfg)" for r
    by (simp add: keep_route_def is_function_def split: option.splits route_filter.splits)
  with a show "filterRoutes cfg rs mode = (filter (\<lambda>r. \<not> f r) rs, cfg)"
    by (intro filterRoutes_pure[of cfg mode c]) simp_all
next
  assume a: "mode_config cfg mode = Some c \<and> only c = Some (Patterns ps) \<and> \<not> is_function (except c)
        \<and> flagless (regexps cfg) (only c)"
  then have "flagless (regexps cfg) (Some (Patterns ps))"
    by auto
  from only_loop_flagless[OF this] a
  have "keep_route c (regexps cfg) r
      = ((\<exists>m\<in>set ps. matches (regexps cfg) m (pattern r)), regexps cfg)" for r
    by (simp add: keep_route_def is_function_def
        split: option.splits route_filter.splits)
  with a show "filterRoutes cfg rs mode
      = (filter (\<lambda>r. \<exists>m\<in>set ps. matches (regexps cfg) m (pattern r)) rs, cfg)"
    by (intro filterRoutes_pure[of cfg mode c]) simp_all
next
  assume a: "mode_config cfg mode = Some c \<and> only c = None \<and> except c = Some (Patterns qs)
        \<and> flagless (regexps cfg) (except c)"
  then have "flagless (regexps cfg) (Some (Patterns qs))"
    by auto
  from except_loop_flagless[OF this] a
  have "keep_route c (regexps cfg) r
      = ((\<forall>m\<in>set qs. \<not> matches (regexps cfg) m (pattern r)), regexps cfg)" for r
    by (simp add: keep_route_def)
  with a show "filterRoutes cfg rs mode
      = (filter (\<lambda>r. \<forall>m\<in>set qs. \<not> matches (regexps cfg) m (pattern r)) rs, cfg)"
    by (intro filterRoutes_pure[of cfg mode c]) simp_all
next
  show "subseq (fst (filterRoutes cfg rs mode)) rs"
    by (rule filterRoutes_subseq)
next
  show "fst (filterRoutes (both_modes only_users) [users_index, admin_index] mode) = [users_index]"
    by (simp add: filterRoutes_def mode_config_both regexps_both only_users_def keep_route_def
        regexp_test_def users_prefix_regexp_def startsWith_def users_index_def admin_index_def)
next
  show "fst (filterRoutes (both_modes except_admin) [users_index, admin_index] mode) = [users_index]"
    by (simp add: filterRoutes_def mode_config_both except_admin_def keep_route_def
        users_index_def admin_index_def)
qed

theorem filterRoutes_contract_witness:
  "mode_config no_filters Routes = None
   \<and> filterRoutes no_filters [users_index, admin_index] Routes = ([users_index, admin_index], no_filters)
   \<and> mode_config (both_modes empty_config) Routes = Some empty_config
   \<and> only empty_config = None \<and> except empty_config = None
   \<and> filterRoutes (both_modes empty_config) [users_index, admin_index] Routes
     = ([users_index, admin_index], both_modes empty_config)
   \<and> is_function (only only_function_except_users)
   \<and> filterRoutes (both_modes only_function_except_users) [users_index, admin_index] Routes
     = ([users_index], both_modes only_function_except_users)
   \<and> \<not> is_function (only only_admin_except_function)
   \<and> is_function (except only_admin_except_function)
   \<and> filterRoutes (both_modes only_admin_except_function) [users_index, admin_index] Routes
     = ([users_index], both_modes only_admin_except_function)
   \<and> only only_users_except_users = Some (Patterns [Literal ''/users''])
   \<and> except only_users_except_users = Some (Patterns [Literal ''/users''])
   \<and> flagless (regexps (both_modes only_users_except_users)) (only only_users_except_users)
   \<and> filterRoutes (both_modes only_users_except_users) [users_index, admin_index] Routes
     = ([users_index], both_modes only_users_except_users)
   \<and> only except_admin = None \<and> except except_admin = Some (Patterns [Literal ''/admin''])
   \<and> flagless (regexps (both_modes except_admin)) (except except_admin)
   \<and> filterRoutes (both_modes except_admin) [users_index, admin_index] Routes
     = ([users_index], both_modes except_admin)"
proof -
  let ?rs = "[users_index, admin_index]"
  have n: "mode_config no_filters Routes = None"
    by (simp add: mode_config_def no_filters_def)
  have r1: "filterRoutes no_filters ?rs Routes = (?rs, no_filters)"
    using filterRoutes_contract[where cfg = no_filters and mode = Routes and rs = ?rs] n
    by blast
  have e: "mode_config (both_modes empty_config) Routes = Some empty_config
      \<and> only empty_config = None \<and> except empty_config = None"
    by (simp add: mode_config_both empty_config_def)
  have r2: "filterRoutes (both_modes empty_config) ?rs Routes = (?rs, both_modes empty_config)"
    using filterRoutes_contract[where cfg = "both_modes empty_config" and mode = Routes
        and c = empty_config and rs = ?rs] e
    by blast
  have f: "mode_config (both_modes only_function_except_users) Routes = Some only_function_except_users
      \<and> only only_function_except_users = Some (Predicate (\<lambda>r. pattern r = ''/users''))"
    by (simp add: mode_config_both only_function_except_users_def)
  have "filterRoutes (both_modes only_function_except_users) ?rs Routes
      = (filter (\<lambda>r. pattern r = ''/users'') ?rs, both_modes only_function_except_users)"
    using filterRoutes_contract[where cfg = "both_modes only_function_except_users" and mode = Routes
        and c = only_function_except_users and f = "\<lambda>r. pattern r = ''/users''" and rs = ?rs] f
    by blast
  then have r3: "filterRoutes (both_modes only_function_except_users) ?rs Routes
      = ([users_index], both_modes only_function_except_users)"
    by (simp add: users_index_def admin_index_def)
  have g: "mode_config (both_modes only_admin_except_function) Routes = Some only_admin_except_function
      \<and> \<not> is_function (only only_admin_except_function)
      \<and> except only_admin_except_function = Some (Predicate (\<lambda>r. pattern r = ''/admin''))"
    by (simp add: mode_config_both only_admin_except_function_def is_function_def)
  have "filterRoutes (both_modes only_admin_except_function) ?rs Routes
      = (filter (\<lambda>r. \<not> pattern r = ''/admin'') ?rs, both_modes only_admin_except_function)"
    using filterRoutes_contract[where cfg = "both_modes only_admin_except_function" and mode = Routes
        and c = only_admin_except_function and f = "\<lambda>r. pattern r = ''/admin''" and rs = ?rs] g
    by blast
  then have r4: "filterRoutes (both_modes only_admin_except_function) ?rs Routes
      = ([users_index], both_modes only_admin_except_function)"
    by (simp add: users_index_def admin_index_def)
  have b: "mode_config (both_modes only_users_except_users) Routes = Some only_users_except_users
      \<and> only only_users_except_users = Some (Patterns [Literal ''/users''])
      \<and> \<not> is_function (except only_users_except_users)
      \<and> flagless (regexps (both_modes only_users_except_users)) (only only_users_except_users)"
    by (simp add: mode_config_both only_users_except_users_def is_function_def flagless_def)
  have "filterRoutes (both_modes only_users_except_users) ?rs Routes
      = (filter (\<lambda>r. \<exists>m\<in>set [Literal ''/users''].
                    matches (regexps (both_modes only_users_except_users)) m (pattern r)) ?rs,
         both_modes only_users_except_users)"
    using filterRoutes_contract[where cfg = "both_modes only_users_except_users" and mode = Routes
        and c = only_users_except_users and ps = "[Literal ''/users'']" and rs = ?rs] b
    by blast
  then have r5: "filterRoutes (both_modes only_users_except_users) ?rs Routes
      = ([users_index], both_modes only_users_except_users)"
    by (simp add: matches_def users_index_def admin_index_def)
  have x: "mode_config (both_modes except_admin) Routes = Some except_admin
      \<and> only except_admin = None \<and> except except_admin = Some (Patterns [Literal ''/admin''])
      \<and> flagless (regexps (both_modes except_admin)) (except except_admin)"
    by (simp add: mode_config_both except_admin_def flagless_def)
  have "filterRoutes (both_modes except_admin) ?rs Routes
      = (filter (\<lambda>r. \<forall>m\<in>set [Literal ''/admin''].
                    \<not> matches (regexps (both_modes except_admin)) m (pattern r)) ?rs,
         both_modes except_admin)"
    using filterRoutes_contract[where cfg = "both_modes except_admin" and mode = Routes
        and c = except_admin and qs = "[Literal ''/admin'']" and rs = ?rs] x
    by blast
  then have r6: "filterRoutes (both_modes except_admin) ?rs Routes
      = ([users_index], both_modes except_admin)"
    by (simp add: matches_def users_index_def admin_index_def)
  have i: "is_function (only only_function_except_users)
      \<and> is_function (except only_admin_except_function)
      \<and> except only_users_except_users = Some (Patterns [Literal ''/users''])"
    by (simp add: is_function_def only_function_except_users_def only_admin_except_function_def
        only_users_except_users_def)
  from n r1 e r2 r3 g r4 b r5 x r6 i show ?thesis
    by blast
qed

subsection \<open>The loop over the routes\<close>

text \<open>
  The walk at segments that a node inherits, or that lead into a string. \<open>/toString\<close>
  adds nothing to the tree, \<open>/users/toString\<close> adds the node \<open>users\<close> only; in both
  cases the walk returns, so the type entry is stored. A walk through \<open>__proto__\<close>, or
  on from a built-in function, is not followed. At a verb key the walk raises, also
  when it is to go on to a segment that is no property of the string.
\<close>

lemma digits: "[0 ..< 10] = [0, 1, 2, 3, 4, 5, 6, 7, 8, 9::nat]"
  by (simp add: upt_rec)

lemma array_index_examples:
  "array_index ''7'' = Some 7 \<and> array_index ''8'' = Some 8 \<and> array_index ''length'' = None
   \<and> array_index ''users'' = None"
  by (simp add: array_index_def digit_value_def digits)

lemma walk_at_inherited_members:
  "descend leaf [] [''toString''] = Inr []
   \<and> descend leaf [] [''users'', ''toString''] = Inr [(''users'', VObj [])]
   \<and> descend leaf [] [''__proto__''] = Inl (LeavesTree ''__proto__'')
   \<and> descend leaf [] [''constructor'', ''name''] = Inl (LeavesTree ''constructor'')
   \<and> descend leaf [(''$get'', VStr ''UsersGet'')] [''$get'']
     = Inl (TypeError ''Cannot create property on string UsersGet'')
   \<and> descend leaf [(''$get'', VStr ''UsersGet'')] [''$get'', ''users'']
     = Inl (TypeError ''Cannot create property on string UsersGet'')
   \<and> descend leaf [(''$get'', VStr ''UsersGet'')] [''$get'', ''length''] = Inl (LeavesTree ''length'')
   \<and> descend leaf [(''$get'', VStr ''UsersGet'')] [''$get'', ''7''] = Inl (LeavesTree ''7'')
   \<and> descend leaf [(''$get'', VStr ''UsersGet'')] [''$get'', ''8'']
     = Inl (TypeError ''Cannot create property on string UsersGet'')"
  by (simp add: child_level_def get_prop_def object_prototype_members_def string_property_def
      string_prototype_members_def array_index_examples)

lemma snd_routes_loop_Cons:
  "snd (routes_loop h d sfs (r # rs) st) =
     (case snd (route_step h d sfs r st) of
        Inl e \<Rightarrow> Inl e
      | Inr st' \<Rightarrow> snd (routes_loop h d sfs rs st'))"
  by (auto split: prod.splits sum.splits)

lemma routes_loop_append:
  "snd (routes_loop h d sfs (pre @ post) st) =
     (case snd (routes_loop h d sfs pre st) of
        Inl e \<Rightarrow> Inl e
      | Inr st' \<Rightarrow> snd (routes_loop h d sfs post st'))"
proof (induction pre arbitrary: st)
  case Nil
  then show ?case by simp
next
  case (Cons r pre)
  show ?case
    by (cases "snd (route_step h d sfs r st)")
       (simp_all add: snd_routes_loop_Cons Cons.IH del: routes_loop.simps)
qed

lemma route_step_unresolved:
  assumes "handler r = Reference modulePath meth" and "handler_unresolved sfs modulePath meth"
  shows "snd (route_step h d sfs r st) = Inr st \<and> list_ex is_warning (fst (route_step h d sfs r st))"
  using assms
  by (auto simp: route_step_def handler_unresolved_def extractClassHandlerData_def is_warning_def
      split: option.splits)

text \<open>
  C7 (a handler that cannot be resolved). When no source file matches the reference of
  a route's handler, or the file has no default-exported class, or the class lacks the
  method, the turn of the loop for the route raises nothing: it logs a warning and leaves
  the definition tree and the types by pattern as they were. The loop goes on with the
  remaining routes, and its outcome is the outcome of the loop over the list without the
  route.
\<close>

theorem unresolved_handler_is_skipped:
  assumes "handler r = Reference modulePath meth" and "handler_unresolved sfs modulePath meth"
  shows "snd (route_step h d sfs r st) = Inr st
    \<and> list_ex is_warning (fst (route_step h d sfs r st))
    \<and> snd (routes_loop h d sfs (r # rest) st) = snd (routes_loop h d sfs rest st)
    \<and> snd (routes_loop h d sfs (before @ r # rest) st) = snd (routes_loop h d sfs (before @ rest) st)"
proof -
  note step = route_step_unresolved[OF assms, of h d]
  have one: "snd (routes_loop h d sfs (r # rest') st') = snd (routes_loop h d sfs rest' st')" for rest' st'
    using step[of st'] by (simp add: snd_routes_loop_Cons del: routes_loop.simps)
  have "snd (routes_loop h d sfs (before @ r # rest) st) = snd (routes_loop h d sfs (before @ rest) st)"
    by (cases "snd (routes_loop h d sfs before st)")
       (simp_all add: routes_loop_append one del: routes_loop.simps)
  with step[of st] one[of rest st] show ?thesis by simp
qed

theorem unresolved_handler_is_skipped_witness:
  "handler missing_index = Reference ''#controllers/missing_controller'' ''index''
   \<and> handler_unresolved [users_controller] ''#controllers/missing_controller'' ''index''
   \<and> route_step model_helpers ''/app/.adonisjs'' [users_controller] missing_index
        \<lparr> definitionObj = [], typesByPattern = [] \<rparr>
     = ([Warning ''Unable to find the controller file for /missing''],
        Inr \<lparr> definitionObj = [], typesByPattern = [] \<rparr>)
   \<and> snd (routes_loop model_helpers ''/app/.adonisjs'' [users_controller] [missing_index, users_index]
        \<lparr> definitionObj = [], typesByPattern = [] \<rparr>)
     = snd (routes_loop model_helpers ''/app/.adonisjs'' [users_controller] [users_index]
        \<lparr> definitionObj = [], typesByPattern = [] \<rparr>)"
proof -
  have a: "handler missing_index = Reference ''#controllers/missing_controller'' ''index''"
    by (simp add: missing_index_def)
  have b: "handler_unresolved [users_controller] ''#controllers/missing_controller'' ''index''"
    by (simp add: handler_unresolved_def users_controller_def endsWith_def)
  have c: "route_step model_helpers ''/app/.adonisjs'' [users_controller] missing_index
        \<lparr> definitionObj = [], typesByPattern = [] \<rparr>
     = ([Warning ''Unable to find the controller file for /missing''],
        Inr \<lparr> definitionObj = [], typesByPattern = [] \<rparr>)"
    by (simp add: route_step_def missing_index_def users_controller_def endsWith_def)
  from unresolved_handler_is_skipped[OF a b, of model_helpers "''/app/.adonisjs''"
      "\<lparr> definitionObj = [], typesByPattern = [] \<rparr>" "[users_index]" "[]"] a b c
  show ?thesis by simp
qed

subsection \<open>Type names in the definition tree\<close>























subsection \<open>The array of named routes\<close>

lemma named_array_map:
  "generateRoutesNameArray h rs tbp
     = map (route_name_of h tbp) (filter (\<lambda>r. has_name (name r)) rs)"
  by (induction rs) (simp_all add: generateRoutesNameArray_def route_name_of_def Let_def)




lemma parse_model_params:
  "map val (filter (\<lambda>node. node_type node \<noteq> 0) (parse_model pat)) = parameter_names pat"
proof -
  have "map val (filter (\<lambda>node. node_type node \<noteq> 0)
          (map (\<lambda>segment. if startsWith segment '':''
                     then \<lparr> node_type = 1, val = tl segment \<rparr>
                     else \<lparr> node_type = 0, val = segment \<rparr>) segs))
      = map tl (filter (\<lambda>seg. hd seg = CHR '':'') segs)"
    if "\<forall>seg\<in>set segs. seg \<noteq> []" for segs
    using that by (induction segs) (auto simp: startsWith_colon)
  from this[of "pattern_segments pat"] show ?thesis
    by (simp add: parse_model_def parameter_names_def pattern_segments_split
        segments_from_nonempty pattern_segments_def)
qed

text \<open>
  C5 (the params of an entry). For every parser, the params of an entry are the values
  of the nodes of its parsed pattern whose type is not \<open>0\<close>, in the parser's order.
  With the pattern parser modelled from the specification they are exactly the names
  of the parameter segments of the pattern, from left to right, so there are as many
  params as parameter segments; \<open>/users/:id/comments/:commentId\<close> gives \<open>id\<close>,
  \<open>commentId\<close>.
\<close>

theorem params_are_parameter_segments:
  "list_all (\<lambda>e. params e = map val (filter (\<lambda>node. node_type node \<noteq> 0) (matchit_parse h (path e))))
     (generateRoutesNameArray h rs tbp)
   \<and> list_all (\<lambda>e. params e = parameter_names (path e)
                  \<and> length (params e)
                    = length (filter (\<lambda>seg. hd seg = CHR '':'') (pattern_segments (path e))))
     (generateRoutesNameArray (h\<lparr> matchit_parse := parse_model \<rparr>) rs tbp)
   \<and> map params (generateRoutesNameArray model_helpers [comments_edit] tbp) = [[''id'', ''commentId'']]"
proof (intro conjI)
  show "list_all (\<lambda>e. params e = map val (filter (\<lambda>node. node_type node \<noteq> 0) (matchit_parse h (path e))))
     (generateRoutesNameArray h rs tbp)"
    by (simp add: named_array_map list_all_iff route_name_of_def Let_def)
  show "list_all (\<lambda>e. params e = parameter_names (path e)
                  \<and> length (params e)
                    = length (filter (\<lambda>seg. hd seg = CHR '':'') (pattern_segments (path e))))
     (generateRoutesNameArray (h\<lparr> matchit_parse := parse_model \<rparr>) rs tbp)"
  proof -
    have p: "params (route_name_of (h\<lparr> matchit_parse := parse_model \<rparr>) tbp r) = parameter_names (pattern r)"
      for r
      by (simp add: route_name_of_def Let_def parse_model_params del: neq0_conv)
    have q: "path (route_name_of (h\<lparr> matchit_parse := parse_model \<rparr>) tbp r) = pattern r" for r
      by (simp add: route_name_of_def Let_def)
    show ?thesis
      by (simp add: named_array_map list_all_iff p q) (simp add: parameter_names_def)
  qed
  show "map params (generateRoutesNameArray model_helpers [comments_edit] tbp) = [[''id'', ''commentId'']]"
    by (simp add: named_array_map route_name_of_def Let_def comments_edit_def has_name_def
        model_helpers_def parse_model_def startsWith_def js_split_def filter_Boolean_def)
qed

theorem params_are_parameter_segments_witness:
  "generateRoutesNameArray (model_helpers\<lparr> matchit_parse := parse_model \<rparr>) [comments_edit] []
     = [\<lparr> params = [''id'', ''commentId''], entry_name = Some ''users.comments.edit'',
          path = ''/users/:id/comments/:commentId'', entry_method = [''GET''], types = ''unknown'' \<rparr>]
   \<and> parameter_names ''/users/:id/comments/:commentId'' = [''id'', ''commentId'']
   \<and> filter (\<lambda>seg. hd seg = CHR '':'') (pattern_segments ''/users/:id/comments/:commentId'')
     = ['':id'', '':commentId'']"
proof -
  have a: "generateRoutesNameArray (model_helpers\<lparr> matchit_parse := parse_model \<rparr>) [comments_edit] []
     = [\<lparr> params = [''id'', ''commentId''], entry_name = Some ''users.comments.edit'',
          path = ''/users/:id/comments/:commentId'', entry_method = [''GET''], types = ''unknown'' \<rparr>]"
    by (simp add: evaluation_defs comments_edit_def)
  from params_are_parameter_segments[of model_helpers "[comments_edit]" "[]"] a
  have "parameter_names ''/users/:id/comments/:commentId'' = [''id'', ''commentId'']"
    by simp
  moreover have "filter (\<lambda>seg. hd seg = CHR '':'') (pattern_segments ''/users/:id/comments/:commentId'')
     = ['':id'', '':commentId'']"
    by (simp add: pattern_segments_def)
  ultimately show ?thesis using a by simp
qed

subsection \<open>The text of the emitted file\<close>


lemma lines_text_append: "lines_text (xs @ ys) = lines_text xs @ lines_text ys"
  by (simp add: lines_text_def)

lemma lines_text_last: "lines_text ls \<noteq> [] \<Longrightarrow> last (lines_text ls) = newline"
  by (induction ls) (auto simp: lines_text_def)

lemma writeLines_fresh:
  "w = [] \<or> last w = newline \<Longrightarrow> writeLines w ls = w @ lines_text ls"
proof (induction ls arbitrary: w)
  case Nil
  show ?case by (simp add: writeLines_def lines_text_def)
next
  case (Cons l ls)
  from Cons.prems have "writeLine w l = w @ l @ [newline]"
    by (auto simp: writeLine_def)
  moreover have "writeLines (w @ l @ [newline]) ls = (w @ l @ [newline]) @ lines_text ls"
    by (rule Cons.IH) simp
  ultimately show ?case
    by (simp add: writeLines_def lines_text_def)
qed

lemma aliases_fresh:
  "w = [] \<or> last w = newline \<Longrightarrow>
   foldl (\<lambda>w kv. writeLines w (f kv)) w kvs = w @ lines_text (concat (map f kvs))"
proof (induction kvs arbitrary: w)
  case Nil
  show ?case by (simp add: lines_text_def)
next
  case (Cons kv kvs)
  have step: "writeLines w (f kv) = w @ lines_text (f kv)"
    by (rule writeLines_fresh[OF Cons.prems])
  have "w @ lines_text (f kv) = [] \<or> last (w @ lines_text (f kv)) = newline"
    using Cons.prems lines_text_last[of "f kv"] by (cases "lines_text (f kv) = []") auto
  from Cons.IH[OF this] step show ?case
    by (simp add: lines_text_append)
qed

lemma writeLine_extends: "\<exists>more. writeLine w t = w @ more"
  by (simp add: writeLine_def)

lemma writeLines_extends: "\<exists>more. writeLines w ls = w @ more"
proof (induction ls arbitrary: w)
  case Nil
  show ?case by (simp add: writeLines_def)
next
  case (Cons l ls)
  obtain a where a: "writeLine w l = w @ a"
    using writeLine_extends by blast
  obtain b where "writeLines (w @ a) ls = (w @ a) @ b"
    using Cons.IH by blast
  with a show ?case
    by (simp add: writeLines_def)
qed

lemma routes_extend: "\<exists>more. foldl (\<lambda>w e. writeLines w (f e)) w es = w @ more"
proof (induction es arbitrary: w)
  case Nil
  show ?case by simp
next
  case (Cons e es)
  obtain a where a: "writeLines w (f e) = w @ a"
    using writeLines_extends by blast
  obtain b where "foldl (\<lambda>w e. writeLines w (f e)) (w @ a) es = (w @ a) @ b"
    using Cons.IH by blast
  with a show ?case
    by simp
qed

lemma api_file_text_aliases:
  "\<exists>rest. api_file_text arr st
     = lines_text [''import type { MakeTuyauRequest, MakeTuyauResponse } from ''
                     @ apostrophe @ ''@tuyau/utils/types'' @ apostrophe,
                   ''import type { InferInput } from '' @ apostrophe @ ''@vinejs/vine/types'' @ apostrophe]
       @ [newline]
       @ lines_text (concat (map type_alias_lines (object_entries (typesByPattern st))))
       @ lines_text [''export interface ApiDefinition {'']
       @ rest"
proof -
  let ?imports = "[''import type { MakeTuyauRequest, MakeTuyauResponse } from ''
                     @ apostrophe @ ''@tuyau/utils/types'' @ apostrophe,
                   ''import type { InferInput } from '' @ apostrophe @ ''@vinejs/vine/types'' @ apostrophe]"
  define w1 where "w1 = newLine (writeLines [] ?imports)"
  define w2 where "w2 = foldl (\<lambda>w kv. writeLines w (type_alias_lines kv)) w1
                          (object_entries (typesByPattern st))"
  define x where "x = writeLine w2 ''export interface ApiDefinition {''"
  define w3 where "w3 = writeLine (write_text x (generateDefinitionInterface (definitionObj st) ''  '')) ''}''"
  define w4 where "w4 = writeLine (foldl (\<lambda>w e. writeLines w (route_lines e))
                            (writeLine w3 ''const routes = ['') arr) ''] as const;''"
  define w5 where "w5 = writeLines w4
                 [''export const api = {'', ''  routes,'', ''  definition: {} as ApiDefinition'', ''}'']"
  define w6 where "w6 = writeLines w5
                 [''declare module '' @ apostrophe @ ''@tuyau/inertia/types'' @ apostrophe @ '' {'',
                  ''  type ApiDefinition = typeof api'',
                  ''  export interface Api extends ApiDefinition {}'',
                  ''}'']"
  have whole: "api_file_text arr st = w6"
    unfolding api_file_text_def Let_def w6_def w5_def w4_def w3_def x_def w2_def w1_def
    by (rule refl)
  have e1: "w1 = lines_text ?imports @ [newline]"
    unfolding w1_def newLine_def by (subst writeLines_fresh) simp_all
  then have f1: "w1 = [] \<or> last w1 = newline"
    by simp
  have e2: "w2 = w1 @ lines_text (concat (map type_alias_lines (object_entries (typesByPattern st))))"
    unfolding w2_def by (rule aliases_fresh[OF f1])
  have f2: "w2 = [] \<or> last w2 = newline"
    using f1 e2
      lines_text_last[of "concat (map type_alias_lines (object_entries (typesByPattern st)))"]
    by (cases "lines_text (concat (map type_alias_lines (object_entries (typesByPattern st)))) = []")
       auto
  have ex: "x = w2 @ lines_text [''export interface ApiDefinition {'']"
    using f2 by (auto simp: x_def writeLine_def lines_text_def)
  obtain s3 where s3: "w3 = x @ s3"
    using writeLine_extends[of "write_text x (generateDefinitionInterface (definitionObj st) ''  '')" "''}''"]
    by (auto simp: w3_def write_text_def)
  obtain a where a: "writeLine w3 ''const routes = ['' = w3 @ a"
    using writeLine_extends by blast
  obtain b where b: "foldl (\<lambda>w e. writeLines w (route_lines e)) (w3 @ a) arr = (w3 @ a) @ b"
    using routes_extend by blast
  obtain c where c: "writeLine ((w3 @ a) @ b) ''] as const;'' = ((w3 @ a) @ b) @ c"
    using writeLine_extends by blast
  from a b c have s4: "w4 = w3 @ a @ b @ c"
    by (simp add: w4_def)
  obtain s5 where s5: "w5 = w4 @ s5"
    unfolding w5_def using writeLines_extends by blast
  obtain s6 where s6: "w6 = w5 @ s6"
    unfolding w6_def using writeLines_extends by blast
  from whole e1 e2 ex s3 s4 s5 s6 show ?thesis
    by simp
qed

lemma set_object_entries: "set (object_entries kvs) = set kvs"
  by (auto simp: object_entries_def)


subsection \<open>Missing schemas\<close>





lemma generate_written:
  assumes "snd (generate h g fs) = Inr fs'"
  shows "\<exists>final arr.
      snd (routes_loop h (getDestinationDirectory g) (project g) (definition_routes g)
             \<lparr> definitionObj = [], typesByPattern = [] \<rparr>) = Inr final
      \<and> snd (collect h g) = Inr (final, arr)
      \<and> fs' = fs(destination_file h g \<mapsto> api_file_text arr final)"
  using assms
  by (auto simp: generate_def collect_def writeApiFile_def split: prod.splits sum.splits)




subsection \<open>Configurations without stateful expressions\<close>

lemma keep_route_flagless:
  assumes "flagless objs (only c)" and "flagless objs (except c)"
  shows "keep_route c objs r = (fst (keep_route c objs r), objs)"
proof (cases "only c")
  case None
  show ?thesis
  proof (cases "except c")
    case n: None
    with None show ?thesis by (simp add: keep_route_def)
  next
    case (Some x)
    show ?thesis
    proof (cases x)
      case (Predicate f)
      with None Some show ?thesis by (simp add: keep_route_def)
    next
      case (Patterns qs)
      with assms(2) Some have "flagless objs (Some (Patterns qs))" by simp
      from except_loop_flagless[OF this] None Some Patterns show ?thesis
        by (simp add: keep_route_def)
    qed
  qed
next
  case (Some x)
  show ?thesis
  proof (cases x)
    case (Predicate f)
    with Some show ?thesis by (simp add: keep_route_def)
  next
    case (Patterns ps)
    with assms(1) Some have "flagless objs (Some (Patterns ps))" by simp
    from only_loop_flagless[OF this] Some Patterns show ?thesis
      by (simp add: keep_route_def split: option.splits route_filter.splits)
  qed
qed

lemma flagless_config_mode:
  assumes "flagless_config cfg" and "mode_config cfg mode = Some c"
  shows "flagless (regexps cfg) (only c) \<and> flagless (regexps cfg) (except c)"
  using assms by (cases mode) (auto simp: flagless_config_def)

lemma filterRoutes_flagless:
  assumes "flagless_config cfg"
  shows "filterRoutes cfg rs mode = (filter (passes cfg mode) rs, cfg)"
proof (cases "mode_config cfg mode")
  case None
  then show ?thesis by (simp add: filterRoutes_def passes_def)
next
  case (Some c)
  show ?thesis
  proof (cases "only c = None \<and> except c = None")
    case True
    with Some show ?thesis by (simp add: filterRoutes_def passes_def)
  next
    case False
    from flagless_config_mode[OF assms Some]
    have pure: "keep_route c (regexps cfg) r = (fst (keep_route c (regexps cfg) r), regexps cfg)" for r
      using keep_route_flagless by blast
    have "passes cfg mode r = fst (keep_route c (regexps cfg) r)" for r
      using Some False pure[of r]
      by (cases "fst (keep_route c (regexps cfg) r)")
         (auto simp: passes_def filterRoutes_def split: prod.splits)
    then have "passes cfg mode = (\<lambda>r. fst (keep_route c (regexps cfg) r))"
      by (simp add: fun_eq_iff)
    with filterRoutes_pure[OF Some _ pure, of rs] False show ?thesis
      by auto
  qed
qed

lemma config_after_flagless:
  assumes "flagless_config (config g)"
  shows "config_after_definitions g = config g" and "config_after_routes g = config g"
    and "config_after h g = config g"
proof -
  show d: "config_after_definitions g = config g"
    by (simp add: config_after_definitions_def filterRoutes_flagless[OF assms])
  show r: "config_after_routes g = config g"
    by (simp add: config_after_routes_def d filterRoutes_flagless[OF assms])
  from d r show "config_after h g = config g"
    by (simp add: config_after_def split: sum.splits)
qed


text \<open>
  With a regular expression that has the flag \<open>g\<close> a filter does not decide route by
  route: \<open>/users/:id\<close> alone passes \<open>only: [/^\/users/g]\<close>, and after \<open>/users\<close> it is
  dropped.
\<close>

lemma stateful_filter_depends_on_earlier_routes:
  "\<not> flagless_config only_users_global
   \<and> passes only_users_global Definitions users_show
   \<and> fst (filterRoutes only_users_global [users_index, users_show] Definitions) = [users_index]"
  by (simp add: flagless_config_def flagless_def passes_def filterRoutes_def mode_config_def
      only_users_global_def only_users_def keep_route_def regexp_test_def users_prefix_regexp_def
      startsWith_def users_index_def users_show_def)

subsection \<open>The generation pass\<close>

lemma find_filter:
  "\<forall>x\<in>set xs. P x \<longrightarrow> Q x \<Longrightarrow> find P (filter Q xs) = find P xs"
  by (induction xs) auto

lemma find_overwritten:
  assumes "overwritten p before after" and "\<not> endsWith p ending"
  shows "find (\<lambda>sf. endsWith (filePath sf) ending) after
       = find (\<lambda>sf. endsWith (filePath sf) ending) before"
proof -
  have "find (\<lambda>sf. endsWith (filePath sf) ending) (filter (\<lambda>sf. filePath sf \<noteq> p) xs)
      = find (\<lambda>sf. endsWith (filePath sf) ending) xs" for xs
    using assms(2) by (intro find_filter) auto
  from this[of after] this[of before] assms(1) show ?thesis
    by (simp add: overwritten_def)
qed

lemma route_step_overwritten:
  assumes "overwritten p before after"
    and "case handler r of
           FunctionHandler \<Rightarrow> True
         | Reference modulePath meth \<Rightarrow> \<not> endsWith p (replace_hash modulePath @ ''.ts'')"
  shows "route_step h d after r st = route_step h d before r st"
proof (cases "handler r")
  case FunctionHandler
  then show ?thesis by (simp add: route_step_def)
next
  case (Reference modulePath meth)
  with assms(2) have "\<not> endsWith p (replace_hash modulePath @ ''.ts'')"
    by simp
  from find_overwritten[OF assms(1) this] Reference show ?thesis
    by (simp add: route_step_def)
qed

lemma routes_loop_overwritten:
  assumes "overwritten p before after"
    and "\<forall>r\<in>set rs. case handler r of
           FunctionHandler \<Rightarrow> True
         | Reference modulePath meth \<Rightarrow> \<not> endsWith p (replace_hash modulePath @ ''.ts'')"
  shows "routes_loop h d after rs st = routes_loop h d before rs st"
  using assms(2)
proof (induction rs arbitrary: st)
  case Nil
  show ?case by simp
next
  case (Cons r rs)
  from Cons.prems have "route_step h d after r st = route_step h d before r st"
    by (intro route_step_overwritten[OF assms(1)]) simp
  moreover from Cons.prems have "routes_loop h d after rs st' = routes_loop h d before rs st'" for st'
    by (intro Cons.IH) simp
  ultimately show ?case
    by simp
qed

lemma rerun_unchanged:
  assumes "after_generate h g g'" and "flagless_config (config g)" and "destination_unmatched h g"
  shows "config g' = config g" and "collect h g' = collect h g"
    and "generate h g' fs = generate h g fs"
proof -
  from assms(1) have same: "appRoot g' = appRoot g" "routes g' = routes g"
    and cfg: "config g' = config_after h g"
    by (simp_all add: after_generate_def)
  from cfg show c: "config g' = config g"
    by (simp add: config_after_flagless(3)[OF assms(2)])
  have dr: "definition_routes g' = definition_routes g"
    by (simp add: definition_routes_def c same)
  have nr: "named_routes g' = named_routes g"
    by (simp add: named_routes_def config_after_definitions_def dr c same)
  have dir: "getDestinationDirectory g' = getDestinationDirectory g"
    by (simp add: getDestinationDirectory_def destination_def same)
  have sub: "set (definition_routes g) \<subseteq> set (routes g)"
    using filterRoutes_subseq[of "config g" "routes g" Definitions]
    by (auto simp: definition_routes_def dest: list_emb_set)
  have loop: "routes_loop h d (project g') (definition_routes g) st
      = routes_loop h d (project g) (definition_routes g) st" for d st
  proof (cases "snd (collect h g)")
    case (Inl e)
    with assms(1) show ?thesis by (simp add: after_generate_def)
  next
    case (Inr res)
    with assms(1) have "overwritten (destination_file h g) (project g) (project g')"
      by (simp add: after_generate_def)
    moreover from assms(3) sub
    have "\<forall>r\<in>set (definition_routes g). case handler r of
           FunctionHandler \<Rightarrow> True
         | Reference modulePath meth \<Rightarrow>
             \<not> endsWith (destination_file h g) (replace_hash modulePath @ ''.ts'')"
      by (auto simp: destination_unmatched_def list_all_iff)
    ultimately show ?thesis
      by (rule routes_loop_overwritten)
  qed
  show col: "collect h g' = collect h g"
    unfolding collect_def dr nr dir loop by (rule refl)
  have "destination_file h g' = destination_file h g"
    by (simp add: destination_file_def destination_def same)
  then have "writeApiFile h g' arr st fs = writeApiFile h g arr st fs" for arr st
    by (simp add: writeApiFile_def)
  then show "generate h g' fs = generate h g fs"
    unfolding generate_def col by simp
qed

lemma api_file_text_differs:
  assumes "typesByPattern st1 \<noteq> []" and "typesByPattern st2 = []"
  shows "api_file_text arr1 st1 \<noteq> api_file_text arr2 st2"
proof -
  let ?imports = "lines_text [''import type { MakeTuyauRequest, MakeTuyauResponse } from ''
                     @ apostrophe @ ''@tuyau/utils/types'' @ apostrophe,
                   ''import type { InferInput } from '' @ apostrophe @ ''@vinejs/vine/types'' @ apostrophe]
       @ [newline]"
  from assms(1) have "set (object_entries (typesByPattern st1)) \<noteq> {}"
    by (simp add: set_object_entries)
  then obtain kv kvs where kv: "object_entries (typesByPattern st1) = kv # kvs"
    by (cases "object_entries (typesByPattern st1)") auto
  from api_file_text_aliases[of arr1 st1] kv obtain rest1 where
    one: "api_file_text arr1 st1 = ?imports @ CHR ''t'' # rest1"
    by (auto simp: lines_text_def type_alias_lines_def)
  from assms(2) have "object_entries (typesByPattern st2) = []"
    by (simp add: object_entries_def)
  with api_file_text_aliases[of arr2 st2] obtain rest2 where
    two: "api_file_text arr2 st2 = ?imports @ CHR ''e'' # rest2"
    by (auto simp: lines_text_def)
  from one two show ?thesis
    by simp
qed


text \<open>
  C9, as the claim states it, fails: two runs on the same route list, the same source
  files and the same configuration need not write the same content, because the
  regular expressions of the configuration keep state between the runs. With
  \<open>only: [/^\/users/g]\<close> for the definitions and the single route \<open>/users\<close>, the first
  run tests the expression from \<open>lastIndex\<close> 0, keeps the route and leaves \<open>lastIndex\<close> at
  6; the second run tests from 6, where the expression does not match, and drops the
  route. The first run writes the type of the route, the second writes no type at all.
\<close>

theorem second_run_counterexample:
  "after_generate model_helpers global_generator global_generator_after
   \<and> routes global_generator_after = routes global_generator
   \<and> project global_generator_after = project global_generator
   \<and> codegen (config global_generator_after) = codegen (config global_generator)
   \<and> lastIndex (regexps (config global_generator) 0) = 0
   \<and> lastIndex (regexps (config global_generator_after) 0) = 6
   \<and> \<not> isl (snd (generate model_helpers global_generator Map.empty))
   \<and> \<not> isl (snd (generate model_helpers global_generator_after
                  (projr (snd (generate model_helpers global_generator Map.empty)))))
   \<and> projr (snd (generate model_helpers global_generator_after
                  (projr (snd (generate model_helpers global_generator Map.empty)))))
        ''/app/.adonisjs/api.ts''
     \<noteq> projr (snd (generate model_helpers global_generator Map.empty)) ''/app/.adonisjs/api.ts''"
proof -
  let ?h = model_helpers
  let ?first = "snd (generate ?h global_generator Map.empty)"
  have c1: "\<not> isl (snd (collect ?h global_generator))
      \<and> typesByPattern (fst (projr (snd (collect ?h global_generator)))) \<noteq> []"
    by (simp add: evaluation_defs global_generator_def only_users_global_def only_users_def
        keep_route_def regexp_test_def users_prefix_regexp_def users_index_def users_controller_def)
  have after_cfg: "codegen (config_after ?h global_generator) = codegen (config global_generator)
      \<and> lastIndex (regexps (config_after ?h global_generator) 0) = 6
      \<and> lastIndex (regexps (config global_generator) 0) = 0"
    by (simp add: config_after_def config_after_routes_def evaluation_defs global_generator_def
        only_users_global_def only_users_def keep_route_def regexp_test_def
        users_prefix_regexp_def users_index_def users_controller_def)
  have d1: "destination_file ?h global_generator = ''/app/.adonisjs/api.ts''"
    by (simp add: destination_file_def destination_def up_to_last_slash_def global_generator_def
        model_helpers_def)
  have d2: "destination_file ?h global_generator_after = ''/app/.adonisjs/api.ts''"
    by (simp add: destination_file_def destination_def up_to_last_slash_def global_generator_def
        global_generator_after_def model_helpers_def)
  from c1 obtain res1 where "snd (collect ?h global_generator) = Inr res1"
    by (cases "snd (collect ?h global_generator)") auto
  moreover have "project global_generator = [users_controller, api_source_file]"
    by (simp add: global_generator_def)
  ultimately have ag: "after_generate ?h global_generator global_generator_after"
    by (simp add: after_generate_def global_generator_after_def d1 overwritten_def
        api_source_file_def users_controller_def)
  have c2: "\<not> isl (snd (collect ?h global_generator_after))
      \<and> typesByPattern (fst (projr (snd (collect ?h global_generator_after)))) = []"
    by (simp add: config_after_def config_after_routes_def evaluation_defs global_generator_after_def
        global_generator_def only_users_global_def only_users_def keep_route_def regexp_test_def
        users_prefix_regexp_def users_index_def users_controller_def)
  from c1 have ok1: "\<not> isl ?first"
    by (cases "collect ?h global_generator"; cases "snd (collect ?h global_generator)")
       (simp_all add: generate_def split: prod.splits)
  then obtain fs1 where r1: "?first = Inr fs1"
    by (cases ?first) auto
  let ?second = "snd (generate ?h global_generator_after fs1)"
  from c2 have ok2: "\<not> isl ?second"
    by (cases "collect ?h global_generator_after"; cases "snd (collect ?h global_generator_after)")
       (simp_all add: generate_def split: prod.splits)
  then obtain fs2 where r2: "?second = Inr fs2"
    by (cases ?second) auto
  from generate_written[OF r1] d1 obtain final1 arr1 where
    col1: "snd (collect ?h global_generator) = Inr (final1, arr1)" and
    w1: "fs1 ''/app/.adonisjs/api.ts'' = Some (api_file_text arr1 final1)"
    by auto
  from generate_written[OF r2] d2 obtain final2 arr2 where
    col2: "snd (collect ?h global_generator_after) = Inr (final2, arr2)" and
    w2: "fs2 ''/app/.adonisjs/api.ts'' = Some (api_file_text arr2 final2)"
    by auto
  from c1 col1 have "typesByPattern final1 \<noteq> []"
    by simp
  moreover from c2 col2 have "typesByPattern final2 = []"
    by simp
  ultimately have "api_file_text arr1 final1 \<noteq> api_file_text arr2 final2"
    by (rule api_file_text_differs)
  with w1 w2 have "fs2 ''/app/.adonisjs/api.ts'' \<noteq> fs1 ''/app/.adonisjs/api.ts''"
    by simp
  with ag after_cfg ok1 ok2 r1 r2 show ?thesis
    by (simp add: global_generator_after_def)
qed


text \<open>
  C9, amended. What a run logs, whether it raises, and the content it writes are a
  function of the route list, the source files and the configuration together with
  the \<open>lastIndex\<close> of its regular expressions (the predicate functions of the
  configuration and the imported helpers being functions of their arguments); they do
  not depend on the file system the run starts from: the content replaces whatever the
  destination held, and every other file is left alone. A second run on the generator
  as the first run has left it (with the generated file among the source files of the
  project, wherever it stands) logs the same entries and writes byte-identical
  content, provided that no regular expression of the configuration has the flag \<open>g\<close>
  or \<open>y\<close> and that no handler reference of a route matches the path of the generated
  file. (A first run that returns has added no property that a later run reads: a run
  whose walk reaches \<open>Object.prototype\<close> or goes on inside a built-in object, where it
  can add such properties, ends in \<open>LeavesTree\<close>.)
\<close>

theorem generate_is_deterministic:
  "fst (generate h g fs1) = fst (generate h g fs2)
   \<and> map_sum id (\<lambda>fs'. fs' (destination_file h g)) (snd (generate h g fs1))
     = map_sum id (\<lambda>fs'. fs' (destination_file h g)) (snd (generate h g fs2))
   \<and> (snd (generate h g fs1) = Inr fs' \<longrightarrow>
        (\<forall>p. p \<noteq> destination_file h g \<longrightarrow> fs' p = fs1 p)
        \<and> (\<exists>st routesNameArray. snd (collect h g) = Inr (st, routesNameArray)
              \<and> fs' (destination_file h g) = Some (api_file_text routesNameArray st)))
   \<and> (after_generate h g g' \<and> flagless_config (config g) \<and> destination_unmatched h g \<longrightarrow>
        config g' = config g \<and> collect h g' = collect h g
        \<and> generate h g' fs1 = generate h g fs1)
   \<and> (after_generate h g g' \<and> flagless_config (config g) \<and> destination_unmatched h g
        \<and> snd (generate h g fs1) = Inr fs' \<longrightarrow>
        generate h g' fs' = (fst (generate h g fs1), Inr fs'))"
proof -
  have basic: "fst (generate h g fs1) = fst (generate h g fs2)
   \<and> map_sum id (\<lambda>fs'. fs' (destination_file h g)) (snd (generate h g fs1))
     = map_sum id (\<lambda>fs'. fs' (destination_file h g)) (snd (generate h g fs2))
   \<and> (snd (generate h g fs1) = Inr fs' \<longrightarrow>
        generate h g fs' = (fst (generate h g fs1), Inr fs')
        \<and> (\<forall>p. p \<noteq> destination_file h g \<longrightarrow> fs' p = fs1 p)
        \<and> (\<exists>st routesNameArray. snd (collect h g) = Inr (st, routesNameArray)
              \<and> fs' (destination_file h g) = Some (api_file_text routesNameArray st)))"
    by (cases "collect h g"; cases "snd (collect h g)")
       (auto simp: generate_def writeApiFile_def split: prod.splits)
  have again: "config g' = config g \<and> collect h g' = collect h g
        \<and> generate h g' fs = generate h g fs"
    if "after_generate h g g' \<and> flagless_config (config g) \<and> destination_unmatched h g" for fs
    using that rerun_unchanged(1,2)[of h g g'] rerun_unchanged(3)[of h g g' fs] by blast
  have twice: "generate h g' fs' = (fst (generate h g fs1), Inr fs')"
    if "after_generate h g g' \<and> flagless_config (config g) \<and> destination_unmatched h g
        \<and> snd (generate h g fs1) = Inr fs'"
    using that again[of fs'] basic by simp
  from basic again[of fs1] twice show ?thesis
    by blast
qed

theorem generate_is_deterministic_witness:
  "after_generate model_helpers admin_generator admin_generator_after
   \<and> flagless_config (config admin_generator)
   \<and> destination_unmatched model_helpers admin_generator
   \<and> project admin_generator_after = [api_source_file, users_controller]
   \<and> destination_file model_helpers admin_generator = ''/app/.adonisjs/api.ts''
   \<and> \<not> isl (snd (generate model_helpers admin_generator Map.empty))
   \<and> generate model_helpers admin_generator_after
        (projr (snd (generate model_helpers admin_generator Map.empty)))
     = generate model_helpers admin_generator Map.empty
   \<and> projr (snd (generate model_helpers admin_generator Map.empty)) ''/app/package.json'' = None
   \<and> projr (snd (generate model_helpers admin_generator Map.empty)) ''/app/.adonisjs/api.ts'' \<noteq> None"
proof -
  let ?h = model_helpers
  let ?run = "generate ?h admin_generator Map.empty"
  have fl: "flagless_config (config admin_generator)"
    by (simp add: flagless_config_def flagless_def mode_config_def admin_generator_def
        definitions_except_admin_def except_admin_def)
  have d: "destination_file ?h admin_generator = ''/app/.adonisjs/api.ts''"
    by (simp add: destination_file_def destination_def up_to_last_slash_def admin_generator_def
        model_helpers_def)
  have um: "destination_unmatched ?h admin_generator"
    unfolding destination_unmatched_def d
    by (simp add: admin_generator_def admin_index_def users_index_def endsWith_def)
  have c: "\<not> isl (snd (collect ?h admin_generator))"
    by (simp add: evaluation_defs admin_generator_def definitions_except_admin_def except_admin_def
        keep_route_def admin_index_def users_index_def users_controller_def)
  then obtain res where res: "snd (collect ?h admin_generator) = Inr res"
    by (cases "snd (collect ?h admin_generator)") auto
  have pa: "project admin_generator = [users_controller]
      \<and> project admin_generator_after = [api_source_file, users_controller]"
    by (simp add: admin_generator_after_def admin_generator_def)
  have ag: "after_generate ?h admin_generator admin_generator_after"
    using res pa config_after_flagless(3)[OF fl, of ?h]
    by (simp add: after_generate_def admin_generator_after_def d overwritten_def
        api_source_file_def users_controller_def)
  from c have ok: "\<not> isl (snd ?run)"
    by (cases "collect ?h admin_generator"; cases "snd (collect ?h admin_generator)")
       (simp_all add: generate_def split: prod.splits)
  then have r: "snd ?run = Inr (projr (snd ?run))"
    by (cases "snd ?run") simp_all
  note inst = generate_is_deterministic[of ?h admin_generator Map.empty Map.empty
      "projr (snd ?run)" admin_generator_after]
  from inst ag fl um r
  have again: "generate ?h admin_generator_after (projr (snd ?run)) = ?run"
    by (cases ?run) simp
  from inst r d have other: "projr (snd ?run) ''/app/package.json'' = None"
    by simp
  from inst r d have written: "projr (snd ?run) ''/app/.adonisjs/api.ts'' \<noteq> None"
    by auto
  from ag fl um pa d ok again other written show ?thesis by simp
qed

text \<open>
  The condition on the handler references cannot be dropped while the place of the
  created file among the source files is open. The controller \<open>app/api.ts\<close> is referred
  to as \<open>#api\<close>, which the path of the generated file matches too. When the generated
  file stands before the controller after the first run, the second run takes it for
  the controller, finds no class in it and skips the route: it writes no type, where
  the first run wrote one.
\<close>

lemma generated_file_taken_for_controller:
  "after_generate model_helpers api_generator api_generator_after
   \<and> flagless_config (config api_generator)
   \<and> \<not> destination_unmatched model_helpers api_generator
   \<and> \<not> isl (snd (generate model_helpers api_generator Map.empty))
   \<and> \<not> isl (snd (generate model_helpers api_generator_after
                  (projr (snd (generate model_helpers api_generator Map.empty)))))
   \<and> projr (snd (generate model_helpers api_generator_after
                  (projr (snd (generate model_helpers api_generator Map.empty)))))
        ''/app/.adonisjs/api.ts''
     \<noteq> projr (snd (generate model_helpers api_generator Map.empty)) ''/app/.adonisjs/api.ts''"
proof -
  let ?h = model_helpers
  let ?first = "snd (generate ?h api_generator Map.empty)"
  have fl: "flagless_config (config api_generator)"
    by (simp add: flagless_config_def mode_config_def api_generator_def no_filters_def)
  have d1: "destination_file ?h api_generator = ''/app/.adonisjs/api.ts''"
    by (simp add: destination_file_def destination_def up_to_last_slash_def api_generator_def
        model_helpers_def)
  have d2: "destination_file ?h api_generator_after = ''/app/.adonisjs/api.ts''"
    by (simp add: destination_file_def destination_def up_to_last_slash_def api_generator_def
        api_generator_after_def model_helpers_def)
  have um: "\<not> destination_unmatched ?h api_generator"
    unfolding destination_unmatched_def d1
    by (simp add: api_generator_def api_index_def endsWith_def)
  have c1: "\<not> isl (snd (collect ?h api_generator))
      \<and> typesByPattern (fst (projr (snd (collect ?h api_generator)))) \<noteq> []"
    by (simp add: evaluation_defs api_generator_def api_index_def api_controller_def)
  have c2: "\<not> isl (snd (collect ?h api_generator_after))
      \<and> typesByPattern (fst (projr (snd (collect ?h api_generator_after)))) = []"
    by (simp add: evaluation_defs api_generator_after_def api_generator_def api_index_def
        api_controller_def api_source_file_def)
  from c1 obtain res1 where "snd (collect ?h api_generator) = Inr res1"
    by (cases "snd (collect ?h api_generator)") auto
  moreover have "project api_generator = [api_controller]
      \<and> project api_generator_after = [api_source_file, api_controller]"
    by (simp add: api_generator_after_def api_generator_def)
  ultimately have ag: "after_generate ?h api_generator api_generator_after"
    using config_after_flagless(3)[OF fl, of ?h]
    by (simp add: after_generate_def api_generator_after_def d1 overwritten_def
        api_source_file_def api_controller_def)
  from c1 have ok1: "\<not> isl ?first"
    by (cases "collect ?h api_generator"; cases "snd (collect ?h api_generator)")
       (simp_all add: generate_def split: prod.splits)
  then obtain fs1 where r1: "?first = Inr fs1"
    by (cases ?first) auto
  let ?second = "snd (generate ?h api_generator_after fs1)"
  from c2 have ok2: "\<not> isl ?second"
    by (cases "collect ?h api_generator_after"; cases "snd (collect ?h api_generator_after)")
       (simp_all add: generate_def split: prod.splits)
  then obtain fs2 where r2: "?second = Inr fs2"
    by (cases ?second) auto
  from generate_written[OF r1] d1 obtain final1 arr1 where
    col1: "snd (collect ?h api_generator) = Inr (final1, arr1)" and
    w1: "fs1 ''/app/.adonisjs/api.ts'' = Some (api_file_text arr1 final1)"
    by auto
  from generate_written[OF r2] d2 obtain final2 arr2 where
    col2: "snd (collect ?h api_generator_after) = Inr (final2, arr2)" and
    w2: "fs2 ''/app/.adonisjs/api.ts'' = Some (api_file_text arr2 final2)"
    by auto
  from c1 col1 have "typesByPattern final1 \<noteq> []"
    by simp
  moreover from c2 col2 have "typesByPattern final2 = []"
    by simp
  ultimately have "api_file_text arr1 final1 \<noteq> api_file_text arr2 final2"
    by (rule api_file_text_differs)
  with w1 w2 have "fs2 ''/app/.adonisjs/api.ts'' \<noteq> fs1 ''/app/.adonisjs/api.ts''"
    by simp
  with ag fl um ok1 ok2 r1 r2 show ?thesis
    by simp
qed



end
